theory Spec2Isabelle
  imports Complex_Main
begin

section \<open>Python text primitives used by mpc\_down\_v4.py\<close>

text \<open>
  The script keeps its intermediate data in text files and reads them back line by line.
  A file is modelled as the list of its lines, a line as a \<open>string\<close>. The three string
  methods the script uses on lines are \<open>str.strip()\<close>, \<open>str.split()\<close> (no argument:
  split at runs of whitespace, no empty token) and \<open>sep.join(parts)\<close>.
  A character is held by its code below 256; whitespace is what \<open>str.isspace\<close> accepts
  there: the codes 9 to 13, 28 to 32, 133 and 160.
\<close>

definition isspace :: "char \<Rightarrow> bool" where
  "isspace c = ((of_char c :: nat) \<in> set [9, 10, 11, 12, 13, 28, 29, 30, 31, 32, 133, 160])"

definition py_strip :: "string \<Rightarrow> string" where
  "py_strip s = rev (dropWhile isspace (rev (dropWhile isspace s)))"

text \<open>\<open>split_from cur s\<close>: the tokens of \<open>s\<close>, where \<open>cur\<close> is the token being read.\<close>

fun split_from :: "string \<Rightarrow> string \<Rightarrow> string list" where
  "split_from cur [] = (if cur = [] then [] else [cur])"
| "split_from cur (c # cs) =
     (if isspace c then (if cur = [] then split_from [] cs else cur # split_from [] cs)
      else split_from (cur @ [c]) cs)"

definition py_split :: "string \<Rightarrow> string list" where
  "py_split s = split_from [] s"

fun py_join :: "string \<Rightarrow> string list \<Rightarrow> string" where
  "py_join sep [] = []"
| "py_join sep [x] = x"
| "py_join sep (x # y # ys) = x @ sep @ py_join sep (y # ys)"

definition newline :: string where
  "newline = ''\<newline>''"

text \<open>\<open>s.split(sep)\<close> for a one-character separator: always at least one piece.\<close>

fun split_on :: "char \<Rightarrow> string \<Rightarrow> string list" where
  "split_on sep [] = [[]]"
| "split_on sep (c # cs) =
     (if c = sep then [] # split_on sep cs
      else (case split_on sep cs of [] \<Rightarrow> [[c]] | t # ts \<Rightarrow> (c # t) # ts))"

text \<open>\<open>str(n)\<close> for an integer: its decimal digits, with a minus sign when negative.\<close>

fun str_nat :: "nat \<Rightarrow> string" where
  "str_nat n = (if n < 10 then [char_of (48 + n)] else str_nat (n div 10) @ [char_of (48 + n mod 10)])"

declare str_nat.simps [simp del]

definition str_int :: "int \<Rightarrow> string" where
  "str_int i = (if i < 0 then CHR ''-'' # str_nat (nat (- i)) else str_nat (nat i))"

section \<open>Errors and values\<close>

text \<open>
  The exceptions the modelled code can raise. None of them is caught by the script
  except the \<open>ValueError\<close> inside \<open>new_perihelion_or_period\<close>; an uncaught one ends the run.
\<close>

datatype error = ValueError | TypeError | KeyError | IndexError | OverflowError | EOFError

text \<open>
  The epoch parameters are dynamically typed: \<open>None\<close>, a \<open>datetime\<close> at midnight (held as
  its proleptic Gregorian ordinal, day 1 being 0001-01-01) or a \<open>float\<close>. A finite float
  is held as the real number it denotes; infinities and NaN have no value here.
\<close>

datatype pyval = PyNone | Datetime int | Float real

definition bind_err :: "error + 'a \<Rightarrow> ('a \<Rightarrow> error + 'b) \<Rightarrow> error + 'b" where
  "bind_err r f = (case r of Inl e \<Rightarrow> Inl e | Inr v \<Rightarrow> f v)"

text \<open>\<open>xs[i]\<close> for a literal index \<open>i \<ge> 0\<close>.\<close>

definition item :: "'a list \<Rightarrow> nat \<Rightarrow> error + 'a" where
  "item xs i = (if i < length xs then Inr (xs ! i) else Inl IndexError)"

section \<open>datetime.strptime(s, '\%Y-\%m-\%d')\<close>

text \<open>
  The calendar arithmetic is that of CPython's \<open>datetime\<close>: \<open>_is_leap\<close>, \<open>_days_before_year\<close>,
  \<open>_days_in_month\<close>, \<open>_days_before_month\<close> and \<open>_ymd2ord\<close>.
\<close>

definition is_leap :: "int \<Rightarrow> bool" where
  "is_leap year = (year mod 4 = 0 \<and> (year mod 100 \<noteq> 0 \<or> year mod 400 = 0))"

definition days_before_year :: "int \<Rightarrow> int" where
  "days_before_year year = (let y = year - 1 in y * 365 + y div 4 - y div 100 + y div 400)"

definition DAYS_IN_MONTH :: "int list" where
  "DAYS_IN_MONTH = [31, 28, 31, 30, 31, 30, 31, 31, 30, 31, 30, 31]"

definition days_in_month :: "int \<Rightarrow> int \<Rightarrow> int" where
  "days_in_month year month =
     (if month = 2 \<and> is_leap year then 29 else DAYS_IN_MONTH ! nat (month - 1))"

definition days_before_month :: "int \<Rightarrow> int \<Rightarrow> int" where
  "days_before_month year month =
     sum_list (take (nat (month - 1)) DAYS_IN_MONTH) + (if month > 2 \<and> is_leap year then 1 else 0)"

definition ymd2ord :: "int \<Rightarrow> int \<Rightarrow> int \<Rightarrow> int" where
  "ymd2ord year month day = days_before_year year + days_before_month year month + day"

definition MAXORDINAL :: int where
  "MAXORDINAL = 3652059"

text \<open>
  \<open>strptime\<close> matches the whole string against the regular expression of the format:
  \<open>\d\d\d\d\<close> for \<open>%Y\<close>, \<open>1[0-2]|0[1-9]|[1-9]\<close> for \<open>%m\<close> and
  \<open>3[01]|[12]\d|0[1-9]|[1-9]| [1-9]\<close> for \<open>%d\<close>, separated by \<open>-\<close>. None of the three
  languages contains \<open>-\<close>, so the string matches exactly when splitting it at \<open>-\<close> gives
  three pieces, one of each language. Digits are the ASCII digits. The date must then
  exist: year at least 1, day at most the length of the month. Every failure is a
  \<open>ValueError\<close>.
\<close>

definition isdigit :: "char \<Rightarrow> bool" where
  "isdigit c = (48 \<le> (of_char c :: nat) \<and> (of_char c :: nat) \<le> 57)"

definition digit_value :: "char \<Rightarrow> int" where
  "digit_value c = int (of_char c) - 48"

definition parse_Y :: "string \<Rightarrow> int option" where
  "parse_Y s = (if length s = 4 \<and> list_all isdigit s
                then Some (foldl (\<lambda>n c. 10 * n + digit_value c) 0 s) else None)"

fun parse_m :: "string \<Rightarrow> int option" where
  "parse_m [a] = (if isdigit a \<and> a \<noteq> CHR ''0'' then Some (digit_value a) else None)"
| "parse_m [a, b] =
     (if a = CHR ''1'' \<and> b \<in> set ''012'' then Some (10 + digit_value b)
      else if a = CHR ''0'' \<and> isdigit b \<and> b \<noteq> CHR ''0'' then Some (digit_value b)
      else None)"
| "parse_m s = None"

fun parse_d :: "string \<Rightarrow> int option" where
  "parse_d [a] = (if isdigit a \<and> a \<noteq> CHR ''0'' then Some (digit_value a) else None)"
| "parse_d [a, b] =
     (if a = CHR ''3'' \<and> b \<in> set ''01'' then Some (30 + digit_value b)
      else if a \<in> set ''12'' \<and> isdigit b then Some (10 * digit_value a + digit_value b)
      else if a = CHR ''0'' \<and> isdigit b \<and> b \<noteq> CHR ''0'' then Some (digit_value b)
      else if a = CHR '' '' \<and> isdigit b \<and> b \<noteq> CHR ''0'' then Some (digit_value b)
      else None)"
| "parse_d s = None"

definition make_datetime :: "int \<Rightarrow> int \<Rightarrow> int \<Rightarrow> error + int" where
  "make_datetime year month day =
     (if 1 \<le> year \<and> day \<le> days_in_month year month
      then Inr (ymd2ord year month day) else Inl ValueError)"

definition strptime :: "string \<Rightarrow> error + int" where
  "strptime date_str =
     (case split_on CHR ''-'' date_str of
        [Y, m, d] \<Rightarrow>
          (case parse_Y Y of None \<Rightarrow> Inl ValueError | Some year \<Rightarrow>
          (case parse_m m of None \<Rightarrow> Inl ValueError | Some month \<Rightarrow>
          (case parse_d d of None \<Rightarrow> Inl ValueError | Some day \<Rightarrow>
             make_datetime year month day)))
      | _ \<Rightarrow> Inl ValueError)"

section \<open>download\_ephem\_for\_period: the chunked ephemeris requests\<close>

text \<open>
  \<open>download_ephemeris\<close> posts one form to the Minor Planet Center and returns 1 or 0. It is
  a parameter here: a function of the start date (the ordinal of the date whose text the
  code sends), the number of days and the append mode. The loop records every request it
  issues. \<open>start_date += timedelta(days=days_to_download)\<close> raises \<open>OverflowError\<close> when the
  new date would lie after 9999-12-31.
\<close>

type_synonym request = "int \<times> int \<times> bool"

function download_loop ::
  "(int \<Rightarrow> int \<Rightarrow> bool \<Rightarrow> int) \<Rightarrow> int \<Rightarrow> int \<Rightarrow> int \<Rightarrow> bool \<Rightarrow> int \<Rightarrow> request list
     \<Rightarrow> request list \<times> (error + int)" where
  "download_loop download_ephemeris start_date difference n_iterations append_mode
       success_down_ephem requests =
     (if difference > 0 then
        (let append_mode' = (if n_iterations = 1 then True else append_mode);
             days_to_download = min difference 4001;
             success = download_ephemeris start_date days_to_download append_mode';
             requests' = requests @ [(start_date, days_to_download, append_mode')] in
         if success = 0 then (requests', Inr success)
         else if start_date + days_to_download > MAXORDINAL then (requests', Inl OverflowError)
         else download_loop download_ephemeris (start_date + days_to_download)
                (difference - days_to_download) (n_iterations + 1) append_mode' success requests')
      else (requests, Inr success_down_ephem))"
  by pat_completeness auto
termination
  by (relation "measure (\<lambda>(dl, s, difference, rest). nat difference)") auto

declare download_loop.simps [simp del]

text \<open>
  \<open>download_ephem_for_period\<close> returns the requests issued and either the exception that
  ended the call or the value of \<open>success_down_ephem\<close>.
\<close>

definition download_ephem_for_period ::
  "(int \<Rightarrow> int \<Rightarrow> bool \<Rightarrow> int) \<Rightarrow> string \<Rightarrow> string \<Rightarrow> request list \<times> (error + int)" where
  "download_ephem_for_period download_ephemeris start_date end_date =
     (case strptime start_date of
        Inl e \<Rightarrow> ([], Inl e)
      | Inr s \<Rightarrow>
          (case strptime end_date of
             Inl e \<Rightarrow> ([], Inl e)
           | Inr e \<Rightarrow> download_loop download_ephemeris s (e - s + 1) 0 False 0 []))"

section \<open>download\_observations: the perihelion date and the period\<close>

text \<open>
  \<open>float(s)\<close> is a builtin; the model takes it as the parameter \<open>to_float\<close>, which returns
  \<open>None\<close> where \<open>float\<close> raises \<open>ValueError\<close>. \<open>input()\<close> reads the next answer of the user;
  the answers still to come are threaded through the calls.
\<close>

definition py_float :: "(string \<Rightarrow> real option) \<Rightarrow> string \<Rightarrow> error + real" where
  "py_float to_float s = (case to_float s of None \<Rightarrow> Inl ValueError | Some x \<Rightarrow> Inr x)"

definition input :: "string list \<Rightarrow> error + string \<times> string list" where
  "input answers = (case answers of [] \<Rightarrow> Inl EOFError | a # rest \<Rightarrow> Inr (a, rest))"

definition lower :: "string \<Rightarrow> string" where
  "lower s = map (\<lambda>c. if 65 \<le> (of_char c :: nat) \<and> (of_char c :: nat) \<le> 90
                       then char_of ((of_char c :: nat) + 32) else c) s"

text \<open>
  \<open>new_perihelion_or_period\<close> catches the \<open>ValueError\<close> of a malformed answer, prints a
  message and returns \<open>new_value\<close>, which is still \<open>None\<close>. \<open>strptime\<close> and \<open>float\<close> raise
  nothing else on a string.
\<close>

definition new_perihelion_or_period ::
  "(string \<Rightarrow> real option) \<Rightarrow> bool \<Rightarrow> bool \<Rightarrow> string list \<Rightarrow> error + pyval \<times> string list" where
  "new_perihelion_or_period to_float valid_perihelion_date valid_period answers =
     (if \<not> valid_perihelion_date then
        bind_err (input answers) (\<lambda>(new_date_str, rest).
          case strptime new_date_str of
            Inr perihelion_date \<Rightarrow> Inr (Datetime perihelion_date, rest)
          | Inl e \<Rightarrow> Inr (PyNone, rest))
      else if \<not> valid_period then
        bind_err (input answers) (\<lambda>(new_period_str, rest).
          case py_float to_float new_period_str of
            Inr period \<Rightarrow> Inr (Float period, rest)
          | Inl e \<Rightarrow> Inr (PyNone, rest))
      else Inr (PyNone, answers))"

text \<open>\<open>date_str, _ = perihelion_date_str.split('.')\<close> followed by \<open>strptime\<close>.\<close>

definition found_perihelion_date :: "string \<Rightarrow> error + int" where
  "found_perihelion_date perihelion_date_str =
     (case split_on CHR ''.'' perihelion_date_str of
        [date_str, decimals] \<Rightarrow> strptime date_str
      | _ \<Rightarrow> Inl ValueError)"

text \<open>
  The part of \<open>download_observations\<close> after the observations are stored: from the texts of
  the two table cells and the user's answers to the pair \<open>(perihelion_date, period)\<close> that
  the function returns.
\<close>

definition ask_both ::
  "(string \<Rightarrow> real option) \<Rightarrow> string list \<Rightarrow> error + pyval \<times> pyval \<times> string list" where
  "ask_both to_float answers =
     bind_err (new_perihelion_or_period to_float False True answers) (\<lambda>(perihelion_date, a1).
     bind_err (new_perihelion_or_period to_float True False a1) (\<lambda>(period, a2).
     Inr (perihelion_date, period, a2)))"

definition epoch_parameters ::
  "(string \<Rightarrow> real option) \<Rightarrow> string \<Rightarrow> string \<Rightarrow> string list \<Rightarrow> error + pyval \<times> pyval" where
  "epoch_parameters to_float perihelion_date_str period_str answers =
     (let perihelion_date_found = (py_strip perihelion_date_str \<noteq> []);
          period_found = (py_strip period_str \<noteq> []) in
      bind_err
        (if \<not> perihelion_date_found \<and> \<not> period_found then ask_both to_float answers
         else if \<not> perihelion_date_found then
           bind_err (new_perihelion_or_period to_float False True answers) (\<lambda>(perihelion_date, a1).
           bind_err (py_float to_float period_str) (\<lambda>years.
           Inr (perihelion_date, Float (years * 365.25), a1)))
         else if \<not> period_found then
           bind_err (new_perihelion_or_period to_float True False answers) (\<lambda>(period, a1).
           bind_err (found_perihelion_date perihelion_date_str) (\<lambda>perihelion_date.
           Inr (Datetime perihelion_date, period, a1)))
         else
           bind_err (found_perihelion_date perihelion_date_str) (\<lambda>perihelion_date.
           bind_err (py_float to_float period_str) (\<lambda>years.
           Inr (Datetime perihelion_date, Float (years * 365.25), answers))))
        (\<lambda>(perihelion_date, period, a).
           bind_err (input a) (\<lambda>(user_input, a').
             if lower user_input \<noteq> ''yes''
             then bind_err (ask_both to_float a') (\<lambda>(pd, per, a''). Inr (pd, per))
             else Inr (perihelion_date, period))))"

section \<open>combine\_data: the join of observations and ephemerides\<close>

text \<open>
  \<open>combine_data\<close> reads \<open>downloaded_obs_data.txt\<close> once and, for every observation line
  with at least five tokens, re-reads \<open>downloaded_ephem_data.txt\<close> from the start; every
  ephemeris line whose first three tokens, joined by a blank, equal those of the
  observation line writes one line to \<open>combined_data.txt\<close> and increments \<open>n_obs\<close>.
  There is no \<open>break\<close> after a match. The state threaded through both loops is the
  output file written so far and the counter.
\<close>

definition obs_date_of :: "string list \<Rightarrow> string" where
  "obs_date_of obs_parts = py_join '' '' (take 3 obs_parts)"

definition eph_parts_of :: "string \<Rightarrow> string list" where
  "eph_parts_of eph_line = py_split (py_strip eph_line)"

definition eph_date_of :: "string \<Rightarrow> string" where
  "eph_date_of eph_line = py_join '' '' (take 3 (eph_parts_of eph_line))"

definition new_line :: "string list \<Rightarrow> string \<Rightarrow> string" where
  "new_line obs_parts eph_line =
     py_join '' '' (obs_parts @ take 3 (drop 3 (eph_parts_of eph_line))) @ newline"

fun eph_loop :: "string list \<Rightarrow> string list \<Rightarrow> string list \<times> nat \<Rightarrow> string list \<times> nat" where
  "eph_loop obs_parts [] (out_file, n_obs) = (out_file, n_obs)"
| "eph_loop obs_parts (eph_line # eph_file) (out_file, n_obs) =
     (if eph_date_of eph_line = obs_date_of obs_parts
      then eph_loop obs_parts eph_file (out_file @ [new_line obs_parts eph_line], n_obs + 1)
      else eph_loop obs_parts eph_file (out_file, n_obs))"

fun obs_loop :: "string list \<Rightarrow> string list \<Rightarrow> string list \<times> nat \<Rightarrow> string list \<times> nat" where
  "obs_loop eph_file [] st = st"
| "obs_loop eph_file (obs_line # obs_lines) st =
     (let obs_parts = py_split (py_strip obs_line) in
      if length obs_parts \<ge> 5
      then obs_loop eph_file obs_lines (eph_loop obs_parts eph_file st)
      else obs_loop eph_file obs_lines st)"

text \<open>\<open>combine_data eph_file obs_file\<close> returns the lines of \<open>combined_data.txt\<close> and \<open>n_obs\<close>.\<close>

definition combine_data :: "string list \<Rightarrow> string list \<Rightarrow> string list \<times> nat" where
  "combine_data eph_file obs_file = obs_loop eph_file obs_file ([], 0)"

section \<open>correct\_dates: days relative to perihelion\<close>

text \<open>\<open>round(x)\<close> with one argument: the nearest integer, a tie going to the even one.\<close>

definition py_round :: "real \<Rightarrow> int" where
  "py_round x =
     (let f = \<lfloor>x\<rfloor>; d = x - of_int f in
      if d < 1 / 2 then f else if d > 1 / 2 then f + 1 else if even f then f else f + 1)"

text \<open>
  The result of a float operation is the exact result rounded to the nearest double, a tie
  going to the even significand. \<open>ulp x\<close> is the spacing of the doubles around \<open>x\<close>:
  \<open>2 ^ (e - 52)\<close> for \<open>2 ^ e \<le> \<bar>x\<bar> < 2 ^ (e + 1)\<close>, and \<open>2 ^ -1074\<close> below \<open>2 ^ -1022\<close>.
  Overflow to infinity is left out: the sums and differences below lie between their
  operands, and a half is smaller than the whole.
\<close>

definition ulp :: "real \<Rightarrow> real" where
  "ulp x = 2 powr of_int (max \<lfloor>log 2 \<bar>x\<bar>\<rfloor> (- 1022) - 52)"

definition fl :: "real \<Rightarrow> real" where
  "fl x = of_int (py_round (x / ulp x)) * ulp x"

text \<open>
  The two \<open>while\<close> loops of \<open>correct_dates\<close>. Nothing in the code bounds them, so each is
  a partial function whose value \<open>None\<close> stands for not returning. \<open>delta_days\<close> starts as
  an \<open>int\<close>, which the comparison reads exactly and the first \<open>+=\<close> turns into a float;
  \<open>- period / 2\<close> is \<open>(-period) / 2\<close>.
\<close>

partial_function (option) add_periods :: "real \<Rightarrow> real \<Rightarrow> real option" where
  "add_periods period delta_days =
     (if delta_days < fl (- period / 2) then add_periods period (fl (delta_days + period))
      else Some delta_days)"

partial_function (option) sub_periods :: "real \<Rightarrow> real \<Rightarrow> real option" where
  "sub_periods period delta_days =
     (if delta_days > fl (period / 2) then sub_periods period (fl (delta_days - period))
      else Some delta_days)"

definition adjust_delta_days :: "real \<Rightarrow> real \<Rightarrow> real option" where
  "adjust_delta_days period delta_days =
     (case add_periods period delta_days of None \<Rightarrow> None
      | Some d \<Rightarrow> sub_periods period d)"

definition modified_line :: "int \<Rightarrow> string list \<Rightarrow> string" where
  "modified_line delta_days_rounded parts =
     str_int delta_days_rounded @ '' '' @ py_join '' '' (drop 3 parts) @ '' '' @
     py_join '' '' (take 3 parts) @ newline"

text \<open>
  The body of the \<open>for\<close> loop for a line with at least three tokens:
  \<open>year, month, day = parts[:3]\<close>, then \<open>strptime\<close> on the three joined by \<open>-\<close>. The subtraction
  \<open>current_date - perihelion_date\<close> raises \<open>TypeError\<close> unless \<open>perihelion_date\<close> is a
  datetime, and so does \<open>- period / 2\<close> unless \<open>period\<close> is a number. The result is
  \<open>None\<close> when a loop does not return, \<open>Some (Inl e)\<close> for an exception and
  \<open>Some (Inr line)\<close> for the line written to \<open>modified_dates.txt\<close>.
\<close>

definition wrapped_delta_days :: "pyval \<Rightarrow> pyval \<Rightarrow> int \<Rightarrow> (error + real) option" where
  "wrapped_delta_days perihelion_date period current_date =
     (case perihelion_date of
        Datetime p \<Rightarrow>
          (case period of
             Float per \<Rightarrow>
               (case adjust_delta_days per (of_int (current_date - p)) of
                  None \<Rightarrow> None
                | Some d \<Rightarrow> Some (Inr d))
           | _ \<Rightarrow> Some (Inl TypeError))
      | _ \<Rightarrow> Some (Inl TypeError))"

definition date_of_parts :: "string list \<Rightarrow> error + int" where
  "date_of_parts parts =
     (case take 3 parts of
        [year, month, day] \<Rightarrow> strptime (year @ ''-'' @ month @ ''-'' @ day)
      | _ \<Rightarrow> Inl ValueError)"

definition correct_line :: "pyval \<Rightarrow> pyval \<Rightarrow> string list \<Rightarrow> (error + string) option" where
  "correct_line perihelion_date period parts =
     (case date_of_parts parts of
        Inl e \<Rightarrow> Some (Inl e)
      | Inr current_date \<Rightarrow>
          (case wrapped_delta_days perihelion_date period current_date of
             None \<Rightarrow> None
           | Some (Inl e) \<Rightarrow> Some (Inl e)
           | Some (Inr delta_days) \<Rightarrow> Some (Inr (modified_line (py_round delta_days) parts))))"

fun correct_loop :: "pyval \<Rightarrow> pyval \<Rightarrow> string list \<Rightarrow> string list \<Rightarrow> (error + string list) option" where
  "correct_loop perihelion_date period [] outfile = Some (Inr outfile)"
| "correct_loop perihelion_date period (line # infile) outfile =
     (let parts = py_split line in
      if length parts < 3 then correct_loop perihelion_date period infile outfile
      else (case correct_line perihelion_date period parts of
              None \<Rightarrow> None
            | Some (Inl e) \<Rightarrow> Some (Inl e)
            | Some (Inr l) \<Rightarrow> correct_loop perihelion_date period infile (outfile @ [l])))"

text \<open>\<open>correct_dates\<close> maps the lines of \<open>combined_data.txt\<close> to those of \<open>modified_dates.txt\<close>.\<close>

definition correct_dates :: "pyval \<Rightarrow> pyval \<Rightarrow> string list \<Rightarrow> (error + string list) option" where
  "correct_dates perihelion_date period infile = correct_loop perihelion_date period infile []"

section \<open>reduce\_magnitudes: filter selection and magnitude reduction\<close>

definition v_band_correction :: "(string \<times> real list) list" where
  "v_band_correction =
     [(''blank'', [0]), (''U'', [-1.3]), (''B'', [-0.8]), (''g'', [-0.35]), (''V'', [0]),
      (''r'', [0.14]), (''R'', [0.4]), (''C'', [0.4]), (''W'', [0.4]), (''i'', [0.32]),
      (''z'', [0.26]), (''I'', [0.8]), (''J'', [1.2]), (''w'', [-0.13]), (''y'', [0.32]),
      (''L'', [0.2]), (''H'', [1.4]), (''K'', [1.7]), (''Y'', [0.7]), (''G'', [0.28]),
      (''v'', [0]), (''c'', [-0.05]), (''o'', [0.33]), (''u'', [2.5]), (''N'', [0]),
      (''T'', [0])]"

definition discarded_filters :: "string list" where
  "discarded_filters = [''U'', ''u'', ''B'', ''I'', ''J'', ''H'', ''K'']"

text \<open>\<open>d[k]\<close> on a dictionary.\<close>

definition lookup :: "(string \<times> 'v) list \<Rightarrow> string \<Rightarrow> error + 'v" where
  "lookup d k = (case map_of d k of None \<Rightarrow> Inl KeyError | Some v \<Rightarrow> Inr v)"

text \<open>
  The float operations of the reduction are parameters of the model: the value of a
  literal of the table, the product, the difference, the sum, \<open>math.log10\<close> (which raises
  \<open>ValueError\<close> outside its domain) and \<open>round(x, 2)\<close>. What is proved for every such record
  holds for the doubles of the interpreter.
\<close>

record arith =
  f_literal :: "real \<Rightarrow> real"
  f_mul :: "real \<Rightarrow> real \<Rightarrow> real"
  f_sub :: "real \<Rightarrow> real \<Rightarrow> real"
  f_add :: "real \<Rightarrow> real \<Rightarrow> real"
  f_log10 :: "real \<Rightarrow> error + real"
  f_round2 :: "real \<Rightarrow> real"

text \<open>
  A line of \<open>reduced_data.txt\<close> is held as the eight tokens copied from the input line
  (year, month, day, t-tq, delta, r, phase, m\_observed) and the number \<open>m_abs\<close>; the text
  \<open>str(m_abs)\<close> is not modelled. The body of the loop returns \<open>Inr None\<close> for a discarded
  line. The reads \<open>parts[0]\<close>, \<open>parts[3]\<close>, \<open>parts[4]\<close>, \<open>parts[5]\<close> and \<open>parts[1]\<close> of the
  output line come after \<open>parts[8]\<close> was read, so they are in range.
\<close>

type_synonym reduced_line = "string list \<times> real"

definition reduce_line_with ::
  "arith \<Rightarrow> (string \<Rightarrow> real option) \<Rightarrow> string list \<Rightarrow> error + reduced_line option" where
  "reduce_line_with A to_float parts =
     bind_err (item parts 1) (\<lambda>p1. bind_err (py_float to_float p1) (\<lambda>m_observed.
     bind_err (item parts 2) (\<lambda>filter_value.
     bind_err (item parts 3) (\<lambda>p3. bind_err (py_float to_float p3) (\<lambda>delta_value.
     bind_err (item parts 4) (\<lambda>p4. bind_err (py_float to_float p4) (\<lambda>r_value.
     if filter_value \<notin> set discarded_filters then
       bind_err (f_log10 A (f_mul A delta_value r_value)) (\<lambda>lg.
       bind_err (lookup v_band_correction filter_value) (\<lambda>correction.
       bind_err (item correction 0) (\<lambda>c.
       let m_abs = f_round2 A
             (f_add A (f_sub A m_observed (f_mul A (f_literal A 5) lg)) (f_literal A c)) in
       bind_err (item parts 6) (\<lambda>p6.
       bind_err (item parts 7) (\<lambda>p7.
       bind_err (item parts 8) (\<lambda>p8.
       Inr (Some ([p6, p7, p8, parts ! 0, parts ! 3, parts ! 4, parts ! 5, parts ! 1], m_abs))))))))
     else Inr None)))))))"

fun reduce_loop_with ::
  "arith \<Rightarrow> (string \<Rightarrow> real option) \<Rightarrow> string list \<Rightarrow> reduced_line list \<times> nat \<times> nat
     \<Rightarrow> error + reduced_line list \<times> nat \<times> nat" where
  "reduce_loop_with A to_float [] st = Inr st"
| "reduce_loop_with A to_float (line # infile) (outfile, n_discarded_obs, n_obs_left) =
     (case reduce_line_with A to_float (py_split line) of
        Inl e \<Rightarrow> Inl e
      | Inr (Some l) \<Rightarrow>
          reduce_loop_with A to_float infile (outfile @ [l], n_discarded_obs, n_obs_left + 1)
      | Inr None \<Rightarrow>
          reduce_loop_with A to_float infile (outfile, n_discarded_obs + 1, n_obs_left))"

text \<open>
  \<open>reduce_magnitudes\<close> returns \<open>n_obs_left\<close>; the model also returns the lines written and
  \<open>n_discarded_obs\<close>, which the code prints.
\<close>

definition reduce_magnitudes_with ::
  "arith \<Rightarrow> (string \<Rightarrow> real option) \<Rightarrow> string list \<Rightarrow> error + reduced_line list \<times> nat \<times> nat" where
  "reduce_magnitudes_with A to_float infile = reduce_loop_with A to_float infile ([], 0, 0)"

text \<open>
  The operations without rounding: \<open>math.log10\<close> as the logarithm, \<open>round(x, 2)\<close> as the
  nearest multiple of 1/100, a tie going to the even one. With them the reduction is
  evaluated on the concrete inputs below, none of which is near a tie.
\<close>

definition log10 :: "real \<Rightarrow> error + real" where
  "log10 x = (if 0 < x then Inr (log 10 x) else Inl ValueError)"

definition py_round2 :: "real \<Rightarrow> real" where
  "py_round2 x = of_int (py_round (x * 100)) / 100"

definition exact :: arith where
  "exact = \<lparr>f_literal = (\<lambda>x. x), f_mul = (*), f_sub = (-), f_add = (+),
            f_log10 = log10, f_round2 = py_round2\<rparr>"

definition reduce_line :: "(string \<Rightarrow> real option) \<Rightarrow> string list \<Rightarrow> error + reduced_line option" where
  "reduce_line to_float parts = reduce_line_with exact to_float parts"

definition reduce_magnitudes ::
  "(string \<Rightarrow> real option) \<Rightarrow> string list \<Rightarrow> error + reduced_line list \<times> nat \<times> nat" where
  "reduce_magnitudes to_float infile = reduce_magnitudes_with exact to_float infile"

section \<open>The main program after the two downloads\<close>

text \<open>
  \<open>combine_data\<close>, then, when \<open>n_obs\<close> is not 0, \<open>correct_dates\<close> and \<open>reduce_magnitudes\<close>.
  The result holds the lines of the total-observations file and, when the reduction ran,
  its result.
\<close>

definition pipeline ::
  "(string \<Rightarrow> real option) \<Rightarrow> pyval \<Rightarrow> pyval \<Rightarrow> string list \<Rightarrow> string list
     \<Rightarrow> (error + string list \<times> (reduced_line list \<times> nat \<times> nat) option) option" where
  "pipeline to_float perihelion_date period eph_file obs_file =
     (case combine_data eph_file obs_file of
        (combined, n_obs) \<Rightarrow>
          if n_obs \<noteq> 0 then
            (case correct_dates perihelion_date period combined of
               None \<Rightarrow> None
             | Some (Inl e) \<Rightarrow> Some (Inl e)
             | Some (Inr modified) \<Rightarrow>
                 (case reduce_magnitudes to_float modified of
                    Inl e \<Rightarrow> Some (Inl e)
                  | Inr reduced \<Rightarrow> Some (Inr (combined, Some reduced))))
          else Some (Inr (combined, None)))"

section \<open>An instance of float() on plain decimal literals\<close>

text \<open>
  \<open>decimal_float\<close> reads an optional sign, digits and an optional fraction, surrounded by
  optional whitespace, to the number they denote. It is the instance of \<open>to_float\<close> used
  on the concrete inputs below, all of which are such literals.
\<close>

definition digits_value :: "string \<Rightarrow> nat" where
  "digits_value s = foldl (\<lambda>n c. 10 * n + nat (digit_value c)) 0 s"

definition unsigned_decimal :: "string \<Rightarrow> real option" where
  "unsigned_decimal s =
     (case split_on CHR ''.'' s of
        [i] \<Rightarrow> if i \<noteq> [] \<and> list_all isdigit i then Some (of_nat (digits_value i)) else None
      | [i, f] \<Rightarrow>
          if (i \<noteq> [] \<or> f \<noteq> []) \<and> list_all isdigit i \<and> list_all isdigit f
          then Some (of_nat (digits_value i) + of_nat (digits_value f) / 10 ^ length f)
          else None
      | _ \<Rightarrow> None)"

definition decimal_float :: "string \<Rightarrow> real option" where
  "decimal_float s =
     (let t = py_strip s in
      if t \<noteq> [] \<and> hd t = CHR ''-'' then map_option uminus (unsigned_decimal (tl t))
      else if t \<noteq> [] \<and> hd t = CHR ''+'' then unsigned_decimal (tl t)
      else unsigned_decimal t)"

section \<open>Auxiliary definitions for the proofs\<close>

text \<open>The lines one observation contributes: one per ephemeris line with its date text.\<close>

definition matches :: "string list \<Rightarrow> string list \<Rightarrow> string list" where
  "matches eph_file obs_parts =
     map (new_line obs_parts) (filter (\<lambda>e. eph_date_of e = obs_date_of obs_parts) eph_file)"

definition contribution :: "string list \<Rightarrow> string \<Rightarrow> string list" where
  "contribution eph_file obs_line =
     (let obs_parts = py_split (py_strip obs_line) in
      if length obs_parts \<ge> 5 then matches eph_file obs_parts else [])"

text \<open>
  What the reduction owes a kept line: the three numbers read from its tokens, the
  correction of its filter in the table, the value of the formula in the given operations
  and the order of the copied tokens.
\<close>

definition kept_line :: "arith \<Rightarrow> (string \<Rightarrow> real option) \<Rightarrow> string \<Rightarrow> reduced_line \<Rightarrow> bool" where
  "kept_line A to_float line l =
    ((\<exists>m_observed delta_value r_value lg correction.
        to_float (py_split line ! 1) = Some m_observed \<and>
        to_float (py_split line ! 3) = Some delta_value \<and>
        to_float (py_split line ! 4) = Some r_value \<and>
        f_log10 A (f_mul A delta_value r_value) = Inr lg \<and>
        map_of v_band_correction (py_split line ! 2) = Some [correction] \<and>
        snd l = f_round2 A
          (f_add A (f_sub A m_observed (f_mul A (f_literal A 5) lg)) (f_literal A correction))) \<and>
     fst l = map (\<lambda>i. py_split line ! i) [6, 7, 8, 0, 3, 4, 5, 1])"

text \<open>
  The lines on which the body of the loop raises nothing: at least five tokens, of which
  the second, fourth and fifth are numbers, and, unless the filter is discarded, a filter
  of the table, a product of the distances in the domain of the logarithm and at least
  nine tokens.
\<close>

definition readable :: "arith \<Rightarrow> (string \<Rightarrow> real option) \<Rightarrow> string \<Rightarrow> bool" where
  "readable A to_float line =
     (4 < length (py_split line) \<and>
      (\<exists>m_observed delta_value r_value.
         to_float (py_split line ! 1) = Some m_observed \<and>
         to_float (py_split line ! 3) = Some delta_value \<and>
         to_float (py_split line ! 4) = Some r_value \<and>
         (py_split line ! 2 \<in> set discarded_filters \<or>
          (\<exists>lg. f_log10 A (f_mul A delta_value r_value) = Inr lg) \<and>
          (\<exists>correction. map_of v_band_correction (py_split line ! 2) = Some correction) \<and>
          8 < length (py_split line))))"


text \<open>The \<open>i\<close>-th request of a run that starts at day \<open>s\<close> with \<open>difference\<close> days to fetch.\<close>

definition chunk :: "int \<Rightarrow> int \<Rightarrow> int \<Rightarrow> nat \<Rightarrow> request" where
  "chunk s difference n_iterations i =
     (s + 4001 * int i, min (difference - 4001 * int i) 4001, 1 \<le> n_iterations + int i)"

section \<open>Properties of the join\<close>

lemma eph_loop_matches:
  "eph_loop obs_parts eph_file (out_file, n) =
     (out_file @ matches eph_file obs_parts, n + length (matches eph_file obs_parts))"
  by (induction eph_file arbitrary: out_file n) (simp_all add: matches_def)

lemma obs_loop_contribution:
  "obs_loop eph_file obs_lines (out_file, n) =
     (out_file @ concat (map (contribution eph_file) obs_lines),
      n + length (concat (map (contribution eph_file) obs_lines)))"
  by (induction obs_lines arbitrary: out_file n)
     (simp_all add: contribution_def Let_def eph_loop_matches)

lemma combine_data_concat:
  "combine_data eph_file obs_file =
     (concat (map (contribution eph_file) obs_file),
      length (concat (map (contribution eph_file) obs_file)))"
  by (simp add: combine_data_def obs_loop_contribution)

lemma contribution_no_match:
  assumes "\<forall>e \<in> set eph_file. eph_date_of e \<noteq> obs_date_of (py_split (py_strip obs_line))"
  shows "contribution eph_file obs_line = []"
proof -
  have "filter (\<lambda>e. eph_date_of e = obs_date_of (py_split (py_strip obs_line))) eph_file = []"
    using assms by (simp add: filter_empty_conv)
  then show ?thesis
    by (simp add: contribution_def matches_def Let_def)
qed

text \<open>
  C5. \<open>combine_data\<close> is a total function of the two files: it has no failing branch.
  The counter it returns is the number of lines it wrote, and an observation line with
  no ephemeris line of the same date text leaves both the output and the counter as they
  are without it.
\<close>

theorem combine_data_drops_unmatched:
  "snd (combine_data eph_file obs_file) = length (fst (combine_data eph_file obs_file)) \<and>
   ((\<forall>e \<in> set eph_file. eph_date_of e \<noteq> obs_date_of (py_split (py_strip obs_line))) \<longrightarrow>
     combine_data eph_file (before @ obs_line # after) = combine_data eph_file (before @ after))"
  by (simp add: combine_data_concat contribution_no_match)

theorem combine_data_drops_unmatched_witness:
  "eph_date_of (''2023 1 1 1.5 1.2 10.0\<newline>'') \<noteq>
     obs_date_of (py_split (py_strip (''2023 1 2 17.9 R\<newline>''))) \<and>
   combine_data [''2023 1 1 1.5 1.2 10.0\<newline>'']
     [''2023 1 1 18.5 V\<newline>'', ''2023 1 2 17.9 R\<newline>''] =
   combine_data [''2023 1 1 1.5 1.2 10.0\<newline>''] [''2023 1 1 18.5 V\<newline>''] \<and>
   combine_data [''2023 1 1 1.5 1.2 10.0\<newline>''] [''2023 1 1 18.5 V\<newline>''] =
     ([''2023 1 1 18.5 V 1.5 1.2 10.0\<newline>''], 1)"
proof -
  have h: "\<forall>e \<in> set [''2023 1 1 1.5 1.2 10.0\<newline>''].
      eph_date_of e \<noteq> obs_date_of (py_split (py_strip (''2023 1 2 17.9 R\<newline>'')))"
    by code_simp
  have v: "combine_data [''2023 1 1 1.5 1.2 10.0\<newline>''] [''2023 1 1 18.5 V\<newline>''] =
     ([''2023 1 1 18.5 V 1.5 1.2 10.0\<newline>''], 1)"
    by code_simp
  show ?thesis
    using h v combine_data_drops_unmatched [of "[''2023 1 1 1.5 1.2 10.0\<newline>'']"
        "[''2023 1 1 18.5 V\<newline>'']" "''2023 1 2 17.9 R\<newline>''"
        "[''2023 1 1 18.5 V\<newline>'']" "[]"]
    by simp
qed

text \<open>
  C10. The join compares the first three tokens as text. An observation line and an
  ephemeris line that denote the same calendar date (\<open>strptime\<close> reads both to the same
  day) but spell it differently, as \<open>01\<close> and \<open>1\<close> do, are no match: when no ephemeris
  line has the observation's date text, nothing is written and the count is 0.
\<close>

theorem join_compares_date_text:
  assumes "date_of_parts (py_split (py_strip obs_line)) = Inr d"
    and "eph_line \<in> set eph_file"
    and "date_of_parts (py_split (py_strip eph_line)) = Inr d"
    and "\<forall>e \<in> set eph_file. eph_date_of e \<noteq> obs_date_of (py_split (py_strip obs_line))"
  shows "combine_data eph_file [obs_line] = ([], 0)"
  using assms(4) by (simp add: combine_data_concat contribution_no_match)

theorem join_compares_date_text_witness:
  "date_of_parts (py_split (py_strip (''2023 01 01 18.5 V\<newline>''))) = Inr 738521 \<and>
   date_of_parts (py_split (py_strip (''2023 1 1 1.5 1.2 10.0\<newline>''))) = Inr 738521 \<and>
   eph_date_of (''2023 1 1 1.5 1.2 10.0\<newline>'') = ''2023 1 1'' \<and>
   obs_date_of (py_split (py_strip (''2023 01 01 18.5 V\<newline>''))) = ''2023 01 01'' \<and>
   combine_data [''2023 1 1 1.5 1.2 10.0\<newline>''] [''2023 01 01 18.5 V\<newline>''] = ([], 0)"
proof -
  have o: "date_of_parts (py_split (py_strip (''2023 01 01 18.5 V\<newline>''))) = Inr 738521"
    by code_simp
  have e: "date_of_parts (py_split (py_strip (''2023 1 1 1.5 1.2 10.0\<newline>''))) = Inr 738521"
    by code_simp
  have ke: "eph_date_of (''2023 1 1 1.5 1.2 10.0\<newline>'') = ''2023 1 1''"
    by code_simp
  have ko: "obs_date_of (py_split (py_strip (''2023 01 01 18.5 V\<newline>''))) = ''2023 01 01''"
    by code_simp
  have d: "\<forall>e \<in> set [''2023 1 1 1.5 1.2 10.0\<newline>''].
      eph_date_of e \<noteq> obs_date_of (py_split (py_strip (''2023 01 01 18.5 V\<newline>'')))"
    by code_simp
  have "combine_data [''2023 1 1 1.5 1.2 10.0\<newline>''] [''2023 01 01 18.5 V\<newline>''] = ([], 0)"
    by (rule join_compares_date_text [OF o _ e d]) simp
  with o e ke ko show ?thesis by blast
qed

lemma filter_key_le_1:
  "distinct (map f xs) \<Longrightarrow> length (filter (\<lambda>x. f x = k) xs) \<le> 1"
proof (induction xs)
  case Nil
  then show ?case by simp
next
  case (Cons a xs)
  show ?case
  proof (cases "f a = k")
    case True
    have "f a \<notin> f ` set xs"
      using Cons.prems by simp
    then have "\<forall>x \<in> set xs. f x \<noteq> k"
      using True by blast
    then have "filter (\<lambda>x. f x = k) xs = []"
      by (simp add: filter_empty_conv)
    with True show ?thesis by simp
  next
    case False
    with Cons show ?thesis by simp
  qed
qed

lemma contribution_le_1:
  assumes "distinct (map eph_date_of eph_file)"
  shows "length (contribution eph_file obs_line) \<le> 1"
  using filter_key_le_1 [OF assms, of "obs_date_of (py_split (py_strip obs_line))"]
  by (simp add: contribution_def matches_def Let_def)

lemma length_concat_le:
  "(\<And>x. length (f x) \<le> 1) \<Longrightarrow> length (concat (map f xs)) \<le> length xs"
proof (induction xs)
  case Nil
  then show ?case by simp
next
  case (Cons a xs)
  have "length (f a) \<le> 1" by (rule Cons.prems)
  moreover have "length (concat (map f xs)) \<le> length xs"
    using Cons by blast
  ultimately show ?case by simp
qed

lemma contribution_row:
  assumes "row \<in> set (contribution eph_file obs_line)"
  shows "\<exists>eph_line \<in> set eph_file.
           5 \<le> length (py_split (py_strip obs_line)) \<and>
           eph_date_of eph_line = obs_date_of (py_split (py_strip obs_line)) \<and>
           row = new_line (py_split (py_strip obs_line)) eph_line"
  using assms by (auto simp: contribution_def matches_def Let_def split: if_splits)

text \<open>
  C4, as the claim states it, fails: the loop over the ephemeris file does not stop at the
  first match, so an ephemeris file holding the same date twice yields two lines for one
  observation.
\<close>

theorem join_fan_out_counterexample:
  "\<not> length (fst (combine_data
        [''2023 1 1 1.5 1.2 10.0\<newline>'', ''2023 1 1 1.5 1.2 10.0\<newline>'']
        [''2023 1 1 18.5 V\<newline>'']))
      \<le> length [''2023 1 1 18.5 V\<newline>'']"
  by code_simp

text \<open>
  C4, amended. When no two ephemeris lines have the same date text, the join writes at
  most as many lines as there are observation lines, and every line written is the tokens
  of an observation line followed by the fourth to sixth token (delta, r, phase) of the
  one ephemeris line with that observation's date text.
\<close>

theorem join_distinct_dates:
  assumes "distinct (map eph_date_of eph_file)"
  shows "length (fst (combine_data eph_file obs_file)) \<le> length obs_file \<and>
         (\<forall>row \<in> set (fst (combine_data eph_file obs_file)).
            \<exists>obs_line \<in> set obs_file. \<exists>eph_line \<in> set eph_file.
              eph_date_of eph_line = obs_date_of (py_split (py_strip obs_line)) \<and>
              (\<forall>e \<in> set eph_file.
                 eph_date_of e = obs_date_of (py_split (py_strip obs_line)) \<longrightarrow> e = eph_line) \<and>
              row = py_join '' '' (py_split (py_strip obs_line) @
                      take 3 (drop 3 (py_split (py_strip eph_line)))) @ newline)"
proof (intro conjI ballI)
  show "length (fst (combine_data eph_file obs_file)) \<le> length obs_file"
    using length_concat_le [of "contribution eph_file" obs_file] contribution_le_1 [OF assms]
    by (simp add: combine_data_concat)
next
  fix row
  assume "row \<in> set (fst (combine_data eph_file obs_file))"
  then obtain obs_line where o: "obs_line \<in> set obs_file"
      and r: "row \<in> set (contribution eph_file obs_line)"
    by (auto simp: combine_data_concat)
  from contribution_row [OF r] obtain eph_line where e: "eph_line \<in> set eph_file"
      "eph_date_of eph_line = obs_date_of (py_split (py_strip obs_line))"
      "row = new_line (py_split (py_strip obs_line)) eph_line"
    by blast
  have inj: "inj_on eph_date_of (set eph_file)"
    using assms by (simp add: distinct_map)
  have uniq: "\<forall>e' \<in> set eph_file.
      eph_date_of e' = obs_date_of (py_split (py_strip obs_line)) \<longrightarrow> e' = eph_line"
    using inj_onD [OF inj _ _ e(1)] e(2) by simp
  show "\<exists>obs_line \<in> set obs_file. \<exists>eph_line \<in> set eph_file.
              eph_date_of eph_line = obs_date_of (py_split (py_strip obs_line)) \<and>
              (\<forall>e \<in> set eph_file.
                 eph_date_of e = obs_date_of (py_split (py_strip obs_line)) \<longrightarrow> e = eph_line) \<and>
              row = py_join '' '' (py_split (py_strip obs_line) @
                      take 3 (drop 3 (py_split (py_strip eph_line)))) @ newline"
    using o e(1,2) uniq unfolding e(3) new_line_def eph_parts_of_def by blast
qed

theorem join_distinct_dates_witness:
  "distinct (map eph_date_of [''2023 1 1 1.5 1.2 10.0\<newline>'', ''2023 1 2 1.6 1.3 9.0\<newline>'']) \<and>
   length (fst (combine_data [''2023 1 1 1.5 1.2 10.0\<newline>'', ''2023 1 2 1.6 1.3 9.0\<newline>'']
      [''2023 1 1 18.5 V\<newline>'', ''2023 1 1 18.4 R\<newline>'', ''2023 1 3 18.0 V\<newline>'']))
     \<le> length [''2023 1 1 18.5 V\<newline>'', ''2023 1 1 18.4 R\<newline>'', ''2023 1 3 18.0 V\<newline>''] \<and>
   fst (combine_data [''2023 1 1 1.5 1.2 10.0\<newline>'', ''2023 1 2 1.6 1.3 9.0\<newline>'']
      [''2023 1 1 18.5 V\<newline>'', ''2023 1 1 18.4 R\<newline>'', ''2023 1 3 18.0 V\<newline>'']) =
     [''2023 1 1 18.5 V 1.5 1.2 10.0\<newline>'', ''2023 1 1 18.4 R 1.5 1.2 10.0\<newline>'']"
proof -
  have h: "distinct (map eph_date_of [''2023 1 1 1.5 1.2 10.0\<newline>'', ''2023 1 2 1.6 1.3 9.0\<newline>''])"
    by code_simp
  have v: "fst (combine_data [''2023 1 1 1.5 1.2 10.0\<newline>'', ''2023 1 2 1.6 1.3 9.0\<newline>'']
      [''2023 1 1 18.5 V\<newline>'', ''2023 1 1 18.4 R\<newline>'', ''2023 1 3 18.0 V\<newline>'']) =
     [''2023 1 1 18.5 V 1.5 1.2 10.0\<newline>'', ''2023 1 1 18.4 R 1.5 1.2 10.0\<newline>'']"
    by code_simp
  from join_distinct_dates [OF h, of "[''2023 1 1 18.5 V\<newline>'', ''2023 1 1 18.4 R\<newline>'', ''2023 1 3 18.0 V\<newline>'']"]
  have "length (fst (combine_data [''2023 1 1 1.5 1.2 10.0\<newline>'', ''2023 1 2 1.6 1.3 9.0\<newline>'']
      [''2023 1 1 18.5 V\<newline>'', ''2023 1 1 18.4 R\<newline>'', ''2023 1 3 18.0 V\<newline>'']))
     \<le> length [''2023 1 1 18.5 V\<newline>'', ''2023 1 1 18.4 R\<newline>'', ''2023 1 3 18.0 V\<newline>'']"
    by (rule conjunct1)
  with h v show ?thesis by blast
qed

section \<open>Properties of rounding to a double\<close>

text \<open>
  \<open>round\<close> is monotone and odd, and so is \<open>fl\<close>; a number \<open>m * 2 ^ e\<close> with
  \<open>\<bar>m\<bar> < 2 ^ 53\<close> and \<open>e \<ge> -1074\<close> is a double.
\<close>

lemma py_round_of_int: "py_round (of_int n) = n"
  by (simp add: py_round_def)



lemma py_round_neg: "py_round (- x) = - py_round x"
proof (cases "x = of_int \<lfloor>x\<rfloor>")
  case True
  then obtain n :: int where "x = of_int n" ..
  then have "py_round (- x) = py_round (of_int (- n))" by simp
  also have "\<dots> = - n" by (rule py_round_of_int)
  finally show ?thesis using \<open>x = of_int n\<close> by (simp add: py_round_of_int)
next
  case False
  moreover have "of_int \<lfloor>x\<rfloor> \<le> x" by (rule of_int_floor_le)
  ultimately have "of_int \<lfloor>x\<rfloor> < x" by linarith
  moreover have "x < of_int \<lfloor>x\<rfloor> + 1" by linarith
  ultimately have f: "\<lfloor>- x\<rfloor> = - \<lfloor>x\<rfloor> - 1" by linarith
  show ?thesis
    unfolding py_round_def Let_def f using \<open>of_int \<lfloor>x\<rfloor> < x\<close>
    by (auto simp: algebra_simps)
qed

lemma py_round_near:
  assumes "of_int n - 1 / 2 < x" and "x < of_int n + 1 / 2"
  shows "py_round x = n"
proof -
  have "\<lfloor>x\<rfloor> = n \<or> \<lfloor>x\<rfloor> = n - 1"
    using assms by linarith
  then show ?thesis
  proof
    assume f: "\<lfloor>x\<rfloor> = n"
    then have "x - of_int n < 1 / 2" using assms by simp
    with f show ?thesis by (simp add: py_round_def Let_def)
  next
    assume f: "\<lfloor>x\<rfloor> = n - 1"
    then have "x - of_int (n - 1) > 1 / 2" using assms by simp
    with f show ?thesis by (simp add: py_round_def Let_def)
  qed
qed


lemma ulp_neg: "ulp (- x) = ulp x"
  by (simp add: ulp_def)

lemma fl_neg: "fl (- x) = - fl x"
  by (simp add: fl_def ulp_neg py_round_neg)

lemma fl_zero: "fl 0 = 0"
  by (simp add: fl_def py_round_def)


lemma binade:
  assumes "0 < x"
  shows "2 powr of_int \<lfloor>log 2 x\<rfloor> \<le> x \<and> x < 2 powr of_int (\<lfloor>log 2 x\<rfloor> + 1)"
  using floor_log_eq_powr_iff [of x 2 "\<lfloor>log 2 x\<rfloor>"] assms by simp

lemma pow_shift: "(2::real) powr of_int (k + 1) = 2 ^ 53 * 2 powr of_int (k - 52)"
proof -
  have "(53::real) + of_int (k - 52) = of_int (k + 1)" by simp
  then have "(2::real) powr of_int (k + 1) = 2 powr (53 + of_int (k - 52))" by (simp only:)
  also have "\<dots> = 2 powr 53 * 2 powr of_int (k - 52)" by (rule powr_add)
  finally show ?thesis by simp
qed






lemma fl_dyadic:
  assumes "\<bar>m\<bar> < 2 ^ 53" and "- 1074 \<le> e"
  shows "fl (of_int m * 2 powr of_int e) = of_int m * 2 powr of_int e"
proof (cases "m = 0")
  case True
  then show ?thesis by (simp add: fl_zero)
next
  case False
  let ?x = "of_int m * 2 powr of_int e :: real"
  let ?E = "\<lfloor>log 2 \<bar>?x\<bar>\<rfloor>"
  let ?K = "max ?E (- 1022)"
  have ax: "\<bar>?x\<bar> = of_int \<bar>m\<bar> * 2 powr of_int e" by (simp add: abs_mult)
  have pos: "0 < \<bar>?x\<bar>" using False by simp
  have "(of_int \<bar>m\<bar> :: real) < of_int (2 ^ 53)" using assms(1) by (simp only: of_int_less_iff)
  then have "\<bar>?x\<bar> < 2 ^ 53 * 2 powr of_int e" unfolding ax by simp
  also have "\<dots> = 2 powr of_int (e + 53)"
    using pow_shift [of "e + 52"] by (simp add: add.commute)
  finally have "(2::real) powr of_int ?E < 2 powr of_int (e + 53)"
    using binade [OF pos] by linarith
  then have "?E < e + 53" by simp
  with assms(2) have le': "?K - 52 \<le> e" by simp
  define K where "K = ?K"
  define j where "j = nat (e - (K - 52))"
  have le: "K - 52 \<le> e" using le' by (simp only: K_def)
  have "(of_int e :: real) = of_int (K - 52) + real j"
    using le by (simp add: j_def)
  then have "(2::real) powr of_int e = 2 powr (of_int (K - 52) + real j)" by (simp only:)
  also have "\<dots> = 2 powr of_int (K - 52) * 2 powr real j" by (rule powr_add)
  also have "\<dots> = 2 ^ j * 2 powr of_int (K - 52)" by (simp add: powr_realpow)
  finally have p: "(2::real) powr of_int e = 2 ^ j * 2 powr of_int (K - 52)" .
  have u: "ulp ?x = 2 powr of_int (K - 52)" by (simp only: ulp_def K_def)
  have "?x / ulp ?x = ?x / 2 powr of_int (K - 52)" by (simp only: u)
  also have "\<dots> = of_int (m * 2 ^ j)" by (simp add: p)
  finally have "py_round (?x / ulp ?x) = m * 2 ^ j" by (simp only: py_round_of_int)
  then have "fl ?x = of_int (m * 2 ^ j) * ulp ?x" by (simp only: fl_def)
  also have "\<dots> = of_int (m * 2 ^ j) * 2 powr of_int (K - 52)" by (simp only: u)
  also have "\<dots> = ?x" by (simp add: p)
  finally show ?thesis .
qed

lemma fl_dyadic_div:
  assumes "\<bar>m\<bar> < 2 ^ 53" and "n \<le> 1074"
  shows "fl (of_int m / 2 ^ n) = of_int m / 2 ^ n"
proof -
  have "(2::real) powr of_int (- int n) = 1 / 2 ^ n"
    by (simp add: powr_minus powr_realpow inverse_eq_divide)
  then have "(of_int m :: real) / 2 ^ n = of_int m * 2 powr of_int (- int n)" by simp
  moreover have "fl (of_int m * 2 powr of_int (- int n)) = (of_int m :: real) * 2 powr of_int (- int n)"
    using assms by (intro fl_dyadic) simp_all
  ultimately show ?thesis by simp
qed

section \<open>Properties of the epoch normalization\<close>













lemma half_period_365: "fl (365.25 / 2) = 365.25 / 2"
proof -
  have "fl (of_int 1461 / 2 ^ 3) = of_int 1461 / 2 ^ 3" by (rule fl_dyadic_div) simp_all
  then show ?thesis by simp
qed

lemma fl_minus_34_75: "fl (- 400 + 365.25) = - 34.75"
proof -
  have "fl (of_int (- 139) / 2 ^ 2) = of_int (- 139) / 2 ^ 2" by (rule fl_dyadic_div) simp_all
  then show ?thesis by simp
qed

lemma adjust_400_days_before: "adjust_delta_days (365.25) (- 400) = Some (- 34.75)"
proof -
  have n: "fl (- 365.25 / 2) = - (365.25 / 2)"
    using fl_neg [of "365.25 / 2"] half_period_365 by simp
  have "add_periods 365.25 (- 400) = add_periods 365.25 (- 34.75)"
    by (subst add_periods.simps) (use n fl_minus_34_75 in simp)
  also have "\<dots> = Some (- 34.75)"
    by (subst add_periods.simps) (use n in simp)
  finally have a: "add_periods 365.25 (- 400) = Some (- 34.75)" .
  have s: "sub_periods 365.25 (- 34.75) = Some (- 34.75)"
    by (subst sub_periods.simps) (use half_period_365 in simp)
  show ?thesis using a s by (simp add: adjust_delta_days_def)
qed

lemma adjust_zero: "adjust_delta_days 365.25 0 = Some 0"
proof -
  have n: "fl (- 365.25 / 2) = - (365.25 / 2)"
    using fl_neg [of "365.25 / 2"] half_period_365 by simp
  have a: "add_periods 365.25 0 = Some 0"
    by (subst add_periods.simps) (use n in simp)
  have s: "sub_periods 365.25 0 = Some 0"
    by (subst sub_periods.simps) (use half_period_365 in simp)
  show ?thesis using a s by (simp add: adjust_delta_days_def)
qed

lemma py_round_minus_34_75: "py_round (- 34.75) = - 35"
  by (simp add: py_round_def Let_def)




text \<open>
  C8, as the claim states it, fails: the offset is the row's date minus the perihelion
  date, so a row 400 days before perihelion starts at \<open>-400\<close> and is wrapped upwards to
  \<open>-34.75\<close>; neither \<open>400 - 365.25\<close> nor the line starting with \<open>35\<close> is produced.
\<close>

theorem offset_sign_counterexample:
  "\<not> (wrapped_delta_days (Datetime 738521) (Float 365.25) (738521 - 400) = Some (Inr (400 - 365.25)) \<and>
      correct_line (Datetime 738521) (Float 365.25)
        [''2021'', ''11'', ''27'', ''18.5'', ''V'', ''1.5'', ''1.2'', ''10.0''] =
      Some (Inr (''35 18.5 V 1.5 1.2 10.0 2021 11 27\<newline>'')))"
proof -
  have "wrapped_delta_days (Datetime 738521) (Float 365.25) (738521 - 400) = Some (Inr (- 34.75))"
    using adjust_400_days_before by (simp add: wrapped_delta_days_def)
  then show ?thesis by simp
qed

text \<open>
  C8, amended. For a row whose date is 400 days before the perihelion date and a period
  of 365.25 days, the wrapped offset is \<open>-400 + 365.25 = -34.75\<close> and the line written
  starts with its rounding, the negative integer \<open>-35\<close>.
\<close>

theorem offset_400_days_before:
  assumes "date_of_parts parts = Inr current_date"
    and "current_date = perihelion_date - 400"
  shows "wrapped_delta_days (Datetime perihelion_date) (Float 365.25) current_date =
           Some (Inr (- 400 + 365.25)) \<and>
         correct_line (Datetime perihelion_date) (Float 365.25) parts =
           Some (Inr (modified_line (- 35) parts))"
proof -
  have w: "wrapped_delta_days (Datetime perihelion_date) (Float 365.25) current_date =
      Some (Inr (- 34.75))"
    using adjust_400_days_before assms(2) by (simp add: wrapped_delta_days_def)
  then have "correct_line (Datetime perihelion_date) (Float 365.25) parts =
      Some (Inr (modified_line (- 35) parts))"
    using assms(1) py_round_minus_34_75 by (simp add: correct_line_def)
  with w show ?thesis by simp
qed

theorem offset_400_days_before_witness:
  "date_of_parts [''2021'', ''11'', ''27'', ''18.5'', ''V'', ''1.5'', ''1.2'', ''10.0''] = Inr 738121 \<and>
   (738121 :: int) = 738521 - 400 \<and>
   strptime ''2023-01-01'' = Inr 738521 \<and>
   correct_line (Datetime 738521) (Float 365.25)
     [''2021'', ''11'', ''27'', ''18.5'', ''V'', ''1.5'', ''1.2'', ''10.0''] =
   Some (Inr (''-35 18.5 V 1.5 1.2 10.0 2021 11 27\<newline>''))"
proof -
  have d: "date_of_parts [''2021'', ''11'', ''27'', ''18.5'', ''V'', ''1.5'', ''1.2'', ''10.0''] = Inr 738121"
    by code_simp
  have e: "(738121 :: int) = 738521 - 400" by simp
  have p: "strptime ''2023-01-01'' = Inr 738521" by code_simp
  have m: "modified_line (- 35) [''2021'', ''11'', ''27'', ''18.5'', ''V'', ''1.5'', ''1.2'', ''10.0''] =
      ''-35 18.5 V 1.5 1.2 10.0 2021 11 27\<newline>''"
    by code_simp
  have "correct_line (Datetime 738521) (Float 365.25)
      [''2021'', ''11'', ''27'', ''18.5'', ''V'', ''1.5'', ''1.2'', ''10.0''] =
      Some (Inr (''-35 18.5 V 1.5 1.2 10.0 2021 11 27\<newline>''))"
    using offset_400_days_before [OF d e] by (simp only: m)
  with d e p show ?thesis by blast
qed

section \<open>Properties of the magnitude reduction\<close>

lemma bind_err_Inr: "bind_err r f = Inr v \<longleftrightarrow> (\<exists>x. r = Inr x \<and> f x = Inr v)"
  by (cases r) (simp_all add: bind_err_def)

lemma item_Inr: "item xs i = Inr x \<longleftrightarrow> i < length xs \<and> xs ! i = x"
  by (auto simp: item_def)

lemma py_float_Inr: "py_float to_float s = Inr x \<longleftrightarrow> to_float s = Some x"
  by (simp add: py_float_def split: option.splits)

lemma log10_Inr: "log10 x = Inr y \<longleftrightarrow> 0 < x \<and> y = log 10 x"
  by (auto simp: log10_def)

lemma lookup_Inr: "lookup d k = Inr v \<longleftrightarrow> map_of d k = Some v"
  by (simp add: lookup_def split: option.splits)

lemma v_band_correction_singleton:
  assumes "map_of v_band_correction k = Some correction"
  shows "\<exists>c. correction = [c]"
proof -
  have "\<forall>p \<in> set v_band_correction. length (snd p) = 1"
    by (simp add: v_band_correction_def)
  moreover have "(k, correction) \<in> set v_band_correction"
    using assms by (rule map_of_SomeD)
  ultimately have "length correction = 1" by fastforce
  then show ?thesis
    by (cases correction) simp_all
qed

lemma reduce_line_discarded:
  assumes "reduce_line_with A to_float parts = Inr None"
  shows "4 < length parts \<and> parts ! 2 \<in> set discarded_filters \<and>
         (\<exists>m_observed delta_value r_value.
            to_float (parts ! 1) = Some m_observed \<and>
            to_float (parts ! 3) = Some delta_value \<and>
            to_float (parts ! 4) = Some r_value)"
  using assms
  by (auto simp: reduce_line_with_def bind_err_Inr item_Inr py_float_Inr lookup_Inr Let_def
           split: if_splits)

lemma reduce_line_kept:
  assumes "reduce_line_with A to_float parts = Inr (Some (tokens, m_abs))"
  shows "8 < length parts \<and> parts ! 2 \<notin> set discarded_filters \<and>
         tokens = [parts ! 6, parts ! 7, parts ! 8, parts ! 0, parts ! 3, parts ! 4, parts ! 5, parts ! 1] \<and>
         (\<exists>m_observed delta_value r_value lg correction.
            to_float (parts ! 1) = Some m_observed \<and>
            to_float (parts ! 3) = Some delta_value \<and>
            to_float (parts ! 4) = Some r_value \<and>
            f_log10 A (f_mul A delta_value r_value) = Inr lg \<and>
            map_of v_band_correction (parts ! 2) = Some [correction] \<and>
            m_abs = f_round2 A
              (f_add A (f_sub A m_observed (f_mul A (f_literal A 5) lg)) (f_literal A correction)))"
proof -
  from assms obtain m_observed delta_value r_value lg correction where
    f: "to_float (parts ! 1) = Some m_observed" "to_float (parts ! 3) = Some delta_value"
       "to_float (parts ! 4) = Some r_value" "f_log10 A (f_mul A delta_value r_value) = Inr lg"
    and k: "parts ! 2 \<notin> set discarded_filters" "map_of v_band_correction (parts ! 2) = Some correction"
    and c: "0 < length correction"
    and m: "m_abs = f_round2 A
              (f_add A (f_sub A m_observed (f_mul A (f_literal A 5) lg)) (f_literal A (correction ! 0)))"
    and l: "8 < length parts"
    and fs: "tokens = [parts ! 6, parts ! 7, parts ! 8, parts ! 0, parts ! 3, parts ! 4, parts ! 5, parts ! 1]"
    by (auto simp: reduce_line_with_def bind_err_Inr item_Inr py_float_Inr lookup_Inr Let_def
             split: if_splits)
  from v_band_correction_singleton [OF k(2)] obtain c0 where "correction = [c0]" by blast
  with f k m l fs show ?thesis by auto
qed

lemma reduce_line_readable:
  "(\<exists>res. reduce_line_with A to_float (py_split line) = Inr res) \<longleftrightarrow> readable A to_float line"
proof
  assume "\<exists>res. reduce_line_with A to_float (py_split line) = Inr res"
  then obtain res where r: "reduce_line_with A to_float (py_split line) = Inr res" ..
  show "readable A to_float line"
  proof (cases res)
    case None
    with r reduce_line_discarded [of A to_float "py_split line"] show ?thesis
      unfolding readable_def by blast
  next
    case (Some l)
    obtain tokens m_abs where "l = (tokens, m_abs)" by (cases l)
    with r Some reduce_line_kept [of A to_float "py_split line" tokens m_abs]
    have "8 < length (py_split line) \<and>
         (\<exists>m_observed delta_value r_value lg correction.
            to_float (py_split line ! 1) = Some m_observed \<and>
            to_float (py_split line ! 3) = Some delta_value \<and>
            to_float (py_split line ! 4) = Some r_value \<and>
            f_log10 A (f_mul A delta_value r_value) = Inr lg \<and>
            map_of v_band_correction (py_split line ! 2) = Some [correction])"
      by blast
    then show ?thesis unfolding readable_def by fastforce
  qed
next
  assume "readable A to_float line"
  then obtain m_observed delta_value r_value where
    l: "4 < length (py_split line)"
    and f: "to_float (py_split line ! 1) = Some m_observed"
      "to_float (py_split line ! 3) = Some delta_value"
      "to_float (py_split line ! 4) = Some r_value"
    and k: "py_split line ! 2 \<in> set discarded_filters \<or>
          (\<exists>lg. f_log10 A (f_mul A delta_value r_value) = Inr lg) \<and>
          (\<exists>correction. map_of v_band_correction (py_split line ! 2) = Some correction) \<and>
          8 < length (py_split line)"
    unfolding readable_def by blast
  show "\<exists>res. reduce_line_with A to_float (py_split line) = Inr res"
  proof (cases "py_split line ! 2 \<in> set discarded_filters")
    case True
    with l f show ?thesis
      by (simp add: reduce_line_with_def bind_err_def item_def py_float_def)
  next
    case False
    with k obtain lg correction where
      lg: "f_log10 A (f_mul A delta_value r_value) = Inr lg"
      and c: "map_of v_band_correction (py_split line ! 2) = Some correction"
      and l8: "8 < length (py_split line)"
      by blast
    from v_band_correction_singleton [OF c] obtain c0 where "correction = [c0]" ..
    with False l l8 f lg c show ?thesis
      by (simp add: reduce_line_with_def bind_err_def item_def py_float_def lookup_def)
  qed
qed

lemma reduce_loop_returns:
  "(\<exists>res. reduce_loop_with A to_float infile (outfile, n_discarded_obs, n_obs_left) = Inr res) \<longleftrightarrow>
     list_all (readable A to_float) infile"
proof (induction infile arbitrary: outfile n_discarded_obs n_obs_left)
  case Nil
  then show ?case by simp
next
  case (Cons line infile)
  show ?case
  proof (cases "reduce_line_with A to_float (py_split line)")
    case (Inl e)
    then have "\<not> readable A to_float line"
      using reduce_line_readable [of A to_float line] by simp
    with Inl show ?thesis by simp
  next
    case (Inr res)
    then have "readable A to_float line"
      using reduce_line_readable [of A to_float line] by blast
    with Inr Cons.IH show ?thesis by (cases res) simp_all
  qed
qed

lemma reduce_loop_result:
  assumes "reduce_loop_with A to_float infile (outfile, n_discarded_obs, n_obs_left) =
             Inr (outfile', n_discarded_obs', n_obs_left')"
  shows "n_discarded_obs' =
           n_discarded_obs + length (filter (\<lambda>line. py_split line ! 2 \<in> set discarded_filters) infile) \<and>
         n_obs_left' =
           n_obs_left + length (filter (\<lambda>line. py_split line ! 2 \<notin> set discarded_filters) infile) \<and>
         (\<exists>new. outfile' = outfile @ new \<and>
            list_all2 (kept_line A to_float)
              (filter (\<lambda>line. py_split line ! 2 \<notin> set discarded_filters) infile) new)"
  using assms
proof (induction infile arbitrary: outfile n_discarded_obs n_obs_left)
  case Nil
  then show ?case by simp
next
  case (Cons line infile)
  show ?case
  proof (cases "reduce_line_with A to_float (py_split line)")
    case (Inl e)
    with Cons.prems show ?thesis by simp
  next
    case (Inr res)
    show ?thesis
    proof (cases res)
      case None
      with Inr have d: "py_split line ! 2 \<in> set discarded_filters"
        using reduce_line_discarded by blast
      from Cons.prems Inr None
      have "reduce_loop_with A to_float infile (outfile, n_discarded_obs + 1, n_obs_left) =
              Inr (outfile', n_discarded_obs', n_obs_left')"
        by simp
      from Cons.IH [OF this] d show ?thesis by simp
    next
      case (Some l)
      obtain tokens m_abs where l: "l = (tokens, m_abs)" by (cases l)
      from reduce_line_kept [of A to_float "py_split line" tokens m_abs] Inr Some l
      have k: "py_split line ! 2 \<notin> set discarded_filters" and kl: "kept_line A to_float line l"
        by (auto simp: kept_line_def)
      from Cons.prems Inr Some
      have "reduce_loop_with A to_float infile (outfile @ [l], n_discarded_obs, n_obs_left + 1) =
              Inr (outfile', n_discarded_obs', n_obs_left')"
        by simp
      from Cons.IH [OF this] obtain new where
        n: "n_discarded_obs' =
              n_discarded_obs + length (filter (\<lambda>line. py_split line ! 2 \<in> set discarded_filters) infile)"
           "n_obs_left' =
              n_obs_left + 1 + length (filter (\<lambda>line. py_split line ! 2 \<notin> set discarded_filters) infile)"
           "outfile' = (outfile @ [l]) @ new"
           "list_all2 (kept_line A to_float)
              (filter (\<lambda>line. py_split line ! 2 \<notin> set discarded_filters) infile) new"
        by blast
      have "outfile' = outfile @ (l # new)" using n(3) by simp
      moreover have "list_all2 (kept_line A to_float)
          (filter (\<lambda>line. py_split line ! 2 \<notin> set discarded_filters) (line # infile)) (l # new)"
        using k kl n(4) by simp
      ultimately show ?thesis using n(1,2) k by auto
    qed
  qed
qed

lemma list_all2_left_member:
  "list_all2 P xs ys \<Longrightarrow> x \<in> set xs \<Longrightarrow> \<exists>y. P x y"
  by (induction rule: list_all2_induct) auto

text \<open>
  C2. For every choice of the float operations: \<open>reduce_magnitudes\<close> returns exactly when
  every line is readable. When it returns, the lines it counted as discarded are exactly
  those whose filter is in \<open>discarded_filters\<close>, that is U, u, B, I, J, H, K; the two
  counters add up to the number of input lines; the lines left are those written, in
  order, and each of them carries \<open>round(m_observed - 5 * log10(delta * r) + correction, 2)\<close>
  for the numbers of its own line and the table entry of its filter.
\<close>

theorem reduce_magnitudes_counts_and_values:
  "((\<exists>result. reduce_magnitudes_with A to_float infile = Inr result) \<longleftrightarrow>
      list_all (readable A to_float) infile) \<and>
   (\<forall>outfile n_discarded_obs n_obs_left.
      reduce_magnitudes_with A to_float infile = Inr (outfile, n_discarded_obs, n_obs_left) \<longrightarrow>
        n_obs_left + n_discarded_obs = length infile \<and>
        n_discarded_obs = length (filter (\<lambda>line. py_split line ! 2 \<in> set discarded_filters) infile) \<and>
        n_obs_left = length outfile \<and>
        list_all2 (kept_line A to_float)
          (filter (\<lambda>line. py_split line ! 2 \<notin> set discarded_filters) infile) outfile) \<and>
   set discarded_filters = {''U'', ''u'', ''B'', ''I'', ''J'', ''H'', ''K''}"
proof (intro conjI allI impI)
  show "(\<exists>result. reduce_magnitudes_with A to_float infile = Inr result) \<longleftrightarrow>
      list_all (readable A to_float) infile"
    unfolding reduce_magnitudes_with_def by (rule reduce_loop_returns)
next
  show "set discarded_filters = {''U'', ''u'', ''B'', ''I'', ''J'', ''H'', ''K''}"
    by (simp add: discarded_filters_def)
next
  fix outfile n_discarded_obs n_obs_left
  assume r: "reduce_magnitudes_with A to_float infile = Inr (outfile, n_discarded_obs, n_obs_left)"
  from reduce_loop_result [OF r [unfolded reduce_magnitudes_with_def]]
  have d: "n_discarded_obs = length (filter (\<lambda>line. py_split line ! 2 \<in> set discarded_filters) infile)"
    and l: "n_obs_left = length (filter (\<lambda>line. py_split line ! 2 \<notin> set discarded_filters) infile)"
    and k: "list_all2 (kept_line A to_float)
           (filter (\<lambda>line. py_split line ! 2 \<notin> set discarded_filters) infile) outfile"
    by auto
  show "n_obs_left + n_discarded_obs = length infile"
    unfolding d l using sum_length_filter_compl [of "\<lambda>line. py_split line ! 2 \<in> set discarded_filters" infile]
    by simp
  show "n_obs_left = length outfile"
    using l list_all2_lengthD [OF k] by simp
  show "n_discarded_obs = length (filter (\<lambda>line. py_split line ! 2 \<in> set discarded_filters) infile)"
    by (rule d)
  show "list_all2 (kept_line A to_float)
           (filter (\<lambda>line. py_split line ! 2 \<notin> set discarded_filters) infile) outfile"
    by (rule k)
qed

text \<open>
  C7. A line whose filter is neither discarded nor a key of \<open>v_band_correction\<close> makes
  \<open>reduce_magnitudes\<close> end with an exception, whatever the other lines are: no correction
  is assumed and no line is written for it. When the line's numbers parse and the product
  of its distances is positive, the exception is the \<open>KeyError\<close> of the table lookup.
\<close>

theorem unknown_filter_fails:
  assumes "line \<in> set infile"
    and "2 < length (py_split line)"
    and "py_split line ! 2 \<notin> set discarded_filters"
    and "map_of v_band_correction (py_split line ! 2) = None"
  shows "(\<exists>e. reduce_magnitudes to_float infile = Inl e) \<and>
         (4 < length (py_split line) \<and>
          (\<exists>m_observed delta_value r_value.
             to_float (py_split line ! 1) = Some m_observed \<and>
             to_float (py_split line ! 3) = Some delta_value \<and>
             to_float (py_split line ! 4) = Some r_value \<and> 0 < delta_value * r_value) \<longrightarrow>
          reduce_magnitudes to_float [line] = Inl KeyError)"
proof
  show "\<exists>e. reduce_magnitudes to_float infile = Inl e"
  proof (cases "reduce_magnitudes to_float infile")
    case (Inl e)
    then show ?thesis by blast
  next
    case (Inr res)
    obtain outfile n_discarded_obs n_obs_left where "res = (outfile, n_discarded_obs, n_obs_left)"
      by (cases res)
    with Inr reduce_loop_result [of exact to_float infile "[]" 0 0 outfile n_discarded_obs n_obs_left]
    have k: "list_all2 (kept_line exact to_float)
             (filter (\<lambda>line. py_split line ! 2 \<notin> set discarded_filters) infile) outfile"
      by (simp add: reduce_magnitudes_def reduce_magnitudes_with_def)
    have "line \<in> set (filter (\<lambda>line. py_split line ! 2 \<notin> set discarded_filters) infile)"
      using assms(1,3) by simp
    then obtain l where "kept_line exact to_float line l"
      using list_all2_left_member [OF k] by blast
    then have False
      using assms(4) by (auto simp: kept_line_def)
    then show ?thesis ..
  qed
next
  show "4 < length (py_split line) \<and>
          (\<exists>m_observed delta_value r_value.
             to_float (py_split line ! 1) = Some m_observed \<and>
             to_float (py_split line ! 3) = Some delta_value \<and>
             to_float (py_split line ! 4) = Some r_value \<and> 0 < delta_value * r_value) \<longrightarrow>
          reduce_magnitudes to_float [line] = Inl KeyError"
    using assms(3,4)
    by (auto simp: reduce_magnitudes_def reduce_magnitudes_with_def reduce_line_with_def exact_def
          bind_err_def item_def py_float_def log10_def lookup_def)
qed

theorem unknown_filter_fails_witness:
  "''0 18.5 Q 1.5 1.2 10.0 2023 1 1\<newline>'' \<in> set [''0 18.5 Q 1.5 1.2 10.0 2023 1 1\<newline>''] \<and>
   2 < length (py_split (''0 18.5 Q 1.5 1.2 10.0 2023 1 1\<newline>'')) \<and>
   py_split (''0 18.5 Q 1.5 1.2 10.0 2023 1 1\<newline>'') ! 2 = ''Q'' \<and>
   ''Q'' \<notin> set discarded_filters \<and>
   map_of v_band_correction ''Q'' = None \<and>
   reduce_magnitudes decimal_float [''0 18.5 Q 1.5 1.2 10.0 2023 1 1\<newline>''] = Inl KeyError"
proof -
  have s: "py_split (''0 18.5 Q 1.5 1.2 10.0 2023 1 1\<newline>'') =
      [''0'', ''18.5'', ''Q'', ''1.5'', ''1.2'', ''10.0'', ''2023'', ''1'', ''1'']"
    by code_simp
  have d: "''Q'' \<notin> set discarded_filters"
    by (simp add: discarded_filters_def)
  have t: "map_of v_band_correction ''Q'' = None"
    by (simp add: v_band_correction_def)
  have f: "decimal_float ''18.5'' = Some (37 / 2)" "decimal_float ''1.5'' = Some (3 / 2)"
    "decimal_float ''1.2'' = Some (6 / 5)"
    by (simp_all add: decimal_float_def unsigned_decimal_def py_strip_def isspace_def isdigit_def
        digits_value_def digit_value_def)
  have m: "''0 18.5 Q 1.5 1.2 10.0 2023 1 1\<newline>'' \<in> set [''0 18.5 Q 1.5 1.2 10.0 2023 1 1\<newline>'']"
    by simp
  have n: "2 < length (py_split ''0 18.5 Q 1.5 1.2 10.0 2023 1 1\<newline>'')"
    by (simp add: s)
  have q: "py_split ''0 18.5 Q 1.5 1.2 10.0 2023 1 1\<newline>'' ! 2 = ''Q''"
    by (simp add: s)
  have w: "4 < length (py_split ''0 18.5 Q 1.5 1.2 10.0 2023 1 1\<newline>'') \<and>
      (\<exists>m_observed delta_value r_value.
         decimal_float (py_split ''0 18.5 Q 1.5 1.2 10.0 2023 1 1\<newline>'' ! 1) = Some m_observed \<and>
         decimal_float (py_split ''0 18.5 Q 1.5 1.2 10.0 2023 1 1\<newline>'' ! 3) = Some delta_value \<and>
         decimal_float (py_split ''0 18.5 Q 1.5 1.2 10.0 2023 1 1\<newline>'' ! 4) = Some r_value \<and>
         0 < delta_value * r_value)"
    unfolding s using f
    by (intro conjI exI [of _ "37 / 2"] exI [of _ "3 / 2"] exI [of _ "6 / 5"]) simp_all
  have "reduce_magnitudes decimal_float [''0 18.5 Q 1.5 1.2 10.0 2023 1 1\<newline>''] = Inl KeyError"
    using unknown_filter_fails [OF m n d [folded q] t [folded q], of decimal_float] w by blast
  with m n q d t show ?thesis by blast
qed

section \<open>The scenario of one ephemeris row and one observation\<close>

text \<open>
  Bounds on \<open>log10(1.8)\<close> from integer powers: \<open>10 ^ 25 < 1.8 ^ 98\<close> and
  \<open>1.8 ^ 39 < 10 ^ 10\<close>.
\<close>

lemma log_lower: "25 / 98 < log 10 (9 / 5 :: real)"
proof -
  have "(10::real) powr (25 / 98) < 9 / 5"
  proof (rule power_less_imp_less_base [where n = 98])
    have "((10::real) powr (25 / 98)) ^ 98 = 10 powr 25"
      by (simp add: powr_power)
    also have "\<dots> = 10 ^ 25"
      by (simp add: powr_realpow[symmetric])
    also have "\<dots> < (9 / 5 :: real) ^ 98"
      by (simp add: power_divide)
    finally show "((10::real) powr (25 / 98)) ^ 98 < (9 / 5) ^ 98" .
  qed simp
  moreover have "25 / 98 < log 10 (9 / 5 :: real) \<longleftrightarrow> 10 powr (25 / 98) < (9 / 5 :: real)"
    by (rule less_log_iff) simp_all
  ultimately show ?thesis by blast
qed

lemma log_upper: "log 10 (9 / 5 :: real) < 10 / 39"
proof -
  have "(9 / 5 :: real) < 10 powr (10 / 39)"
  proof (rule power_less_imp_less_base [where n = 39])
    have "((10::real) powr (10 / 39)) ^ 39 = 10 powr 10"
      by (simp add: powr_power)
    also have "\<dots> = 10 ^ 10"
      by (simp add: powr_realpow[symmetric])
    finally have e: "((10::real) powr (10 / 39)) ^ 39 = 10 ^ 10" .
    have "(9 / 5 :: real) ^ 39 < 10 ^ 10"
      by (simp add: power_divide)
    with e show "(9 / 5 :: real) ^ 39 < (10 powr (10 / 39)) ^ 39" by simp
  qed simp
  moreover have "log 10 (9 / 5 :: real) < 10 / 39 \<longleftrightarrow> (9 / 5 :: real) < 10 powr (10 / 39)"
    by (rule log_less_iff) simp_all
  ultimately show ?thesis by blast
qed

lemma scenario_m_abs: "py_round2 (37 / 2 - 5 * log 10 (9 / 5)) = 1722 / 100"
proof -
  have "py_round ((37 / 2 - 5 * log 10 (9 / 5)) * 100) = 1722"
    using log_lower log_upper by (intro py_round_near) simp_all
  then show ?thesis by (simp add: py_round2_def)
qed

lemma floats: "decimal_float ''18.5'' = Some (37 / 2)" "decimal_float ''1.5'' = Some (3 / 2)"
  "decimal_float ''1.2'' = Some (6 / 5)" "decimal_float ''17.0'' = Some 17"
  by (simp_all add: decimal_float_def unsigned_decimal_def py_strip_def isspace_def isdigit_def
        digits_value_def digit_value_def)

lemma scenario_reduce_line:
  "reduce_line_with exact decimal_float
     [''0'', ''18.5'', ''V'', ''1.5'', ''1.2'', ''10.0'', ''2023'', ''1'', ''1''] =
     Inr (Some ([''2023'', ''1'', ''1'', ''0'', ''1.5'', ''1.2'', ''10.0'', ''18.5''], 1722 / 100))"
  by (simp add: reduce_line_with_def exact_def bind_err_def item_def py_float_def floats log10_def
        lookup_def v_band_correction_def discarded_filters_def scenario_m_abs)

lemma split_modified:
  "py_split (''0 18.5 V 1.5 1.2 10.0 2023 1 1\<newline>'') =
     [''0'', ''18.5'', ''V'', ''1.5'', ''1.2'', ''10.0'', ''2023'', ''1'', ''1'']"
  by code_simp

lemma scenario_combine:
  "combine_data [''2023 1 1 1.5 1.2 10.0\<newline>''] [''2023 1 1 18.5 V\<newline>''] =
     ([''2023 1 1 18.5 V 1.5 1.2 10.0\<newline>''], 1)"
  by code_simp

lemma scenario_date:
  "date_of_parts (py_split (''2023 1 1 18.5 V 1.5 1.2 10.0\<newline>'')) = Inr 738521"
  by code_simp

lemma scenario_modified_line:
  "modified_line 0 (py_split (''2023 1 1 18.5 V 1.5 1.2 10.0\<newline>'')) =
     ''0 18.5 V 1.5 1.2 10.0 2023 1 1\<newline>''"
  by code_simp

lemma scenario_length: "\<not> length (py_split (''2023 1 1 18.5 V 1.5 1.2 10.0\<newline>'')) < 3"
  by code_simp

lemma py_round_zero: "py_round 0 = 0"
  by (simp add: py_round_def)

lemma scenario_correct_dates:
  "correct_dates (Datetime 738521) (Float 365.25) [''2023 1 1 18.5 V 1.5 1.2 10.0\<newline>''] =
     Some (Inr [''0 18.5 V 1.5 1.2 10.0 2023 1 1\<newline>''])"
  using scenario_length scenario_date adjust_zero py_round_zero scenario_modified_line
  by (simp add: correct_dates_def correct_line_def wrapped_delta_days_def Let_def)

lemma scenario_reduce:
  "reduce_magnitudes decimal_float [''0 18.5 V 1.5 1.2 10.0 2023 1 1\<newline>''] =
     Inr ([([''2023'', ''1'', ''1'', ''0'', ''1.5'', ''1.2'', ''10.0'', ''18.5''], 1722 / 100)], 0, 1)"
  by (simp add: reduce_magnitudes_def reduce_magnitudes_with_def split_modified
        scenario_reduce_line)

lemma scenario_run_value:
  "pipeline decimal_float (Datetime 738521) (Float 365.25)
     [''2023 1 1 1.5 1.2 10.0\<newline>''] [''2023 1 1 18.5 V\<newline>''] =
   Some (Inr ([''2023 1 1 18.5 V 1.5 1.2 10.0\<newline>''],
     Some ([([''2023'', ''1'', ''1'', ''0'', ''1.5'', ''1.2'', ''10.0'', ''18.5''], 1722 / 100)], 0, 1)))"
  using scenario_combine scenario_correct_dates scenario_reduce
  by (simp add: pipeline_def)

theorem reduce_magnitudes_counts_and_values_witness:
  "list_all (readable exact decimal_float)
     [''0 18.5 V 1.5 1.2 10.0 2023 1 1\<newline>'', ''3 17.0 U 1.5 1.2 10.0 2023 1 4\<newline>''] \<and>
   reduce_magnitudes_with exact decimal_float
     [''0 18.5 V 1.5 1.2 10.0 2023 1 1\<newline>'', ''3 17.0 U 1.5 1.2 10.0 2023 1 4\<newline>''] =
     Inr ([([''2023'', ''1'', ''1'', ''0'', ''1.5'', ''1.2'', ''10.0'', ''18.5''], 17.22)], 1, 1) \<and>
   (1::nat) + 1 =
     length [''0 18.5 V 1.5 1.2 10.0 2023 1 1\<newline>'', ''3 17.0 U 1.5 1.2 10.0 2023 1 4\<newline>''] \<and>
   list_all2 (kept_line exact decimal_float)
     (filter (\<lambda>line. py_split line ! 2 \<notin> set discarded_filters)
        [''0 18.5 V 1.5 1.2 10.0 2023 1 1\<newline>'', ''3 17.0 U 1.5 1.2 10.0 2023 1 4\<newline>''])
     [([''2023'', ''1'', ''1'', ''0'', ''1.5'', ''1.2'', ''10.0'', ''18.5''], 17.22)]"
proof -
  let ?infile = "[''0 18.5 V 1.5 1.2 10.0 2023 1 1\<newline>'', ''3 17.0 U 1.5 1.2 10.0 2023 1 4\<newline>'']"
  let ?out = "[([''2023'', ''1'', ''1'', ''0'', ''1.5'', ''1.2'', ''10.0'', ''18.5''], 17.22 :: real)]"
  have s: "py_split (''3 17.0 U 1.5 1.2 10.0 2023 1 4\<newline>'') =
      [''3'', ''17.0'', ''U'', ''1.5'', ''1.2'', ''10.0'', ''2023'', ''1'', ''4'']"
    by code_simp
  have u: "reduce_line_with exact decimal_float
      [''3'', ''17.0'', ''U'', ''1.5'', ''1.2'', ''10.0'', ''2023'', ''1'', ''4''] = Inr None"
    by (simp add: reduce_line_with_def bind_err_def item_def py_float_def floats discarded_filters_def)
  have h: "reduce_magnitudes_with exact decimal_float ?infile = Inr (?out, 1, 1)"
    by (simp add: reduce_magnitudes_with_def split_modified scenario_reduce_line s u)
  note t = reduce_magnitudes_counts_and_values [of exact decimal_float ?infile]
  from t h have r: "list_all (readable exact decimal_float) ?infile" by blast
  from t h have "(1::nat) + 1 = length ?infile \<and>
      list_all2 (kept_line exact decimal_float)
        (filter (\<lambda>line. py_split line ! 2 \<notin> set discarded_filters) ?infile) ?out"
    by blast
  with r h show ?thesis by blast
qed

text \<open>
  C9, as the claim states it, fails in its last number: \<open>5 * log10(1.5 * 1.2)\<close> is about
  1.2764, not 0.7932, so the run does not yield 17.71.
\<close>

theorem scenario_counterexample:
  "\<not> (pipeline decimal_float (Datetime 738521) (Float 365.25)
        [''2023 1 1 1.5 1.2 10.0\<newline>''] [''2023 1 1 18.5 V\<newline>''] =
      Some (Inr ([''2023 1 1 18.5 V 1.5 1.2 10.0\<newline>''],
        Some ([([''2023'', ''1'', ''1'', ''0'', ''1.5'', ''1.2'', ''10.0'', ''18.5''], 17.71)], 0, 1))))"
  using scenario_run_value by simp

text \<open>
  C9, amended. For the ephemeris line \<open>2023 1 1 1.5 1.2 10.0\<close>, the observation line
  \<open>2023 1 1 18.5 V\<close>, perihelion 2023-01-01 and a period of 365.25 days, the join writes
  \<open>2023 1 1 18.5 V 1.5 1.2 10.0\<close>, the offset is 0 and the absolute magnitude is
  \<open>round(18.5 - 5 * log10(1.5 * 1.2) + 0, 2) = 17.22\<close>.
\<close>

theorem scenario_pipeline:
  "strptime ''2023-01-01'' = Inr 738521 \<and>
   combine_data [''2023 1 1 1.5 1.2 10.0\<newline>''] [''2023 1 1 18.5 V\<newline>''] =
     ([''2023 1 1 18.5 V 1.5 1.2 10.0\<newline>''], 1) \<and>
   correct_dates (Datetime 738521) (Float 365.25) [''2023 1 1 18.5 V 1.5 1.2 10.0\<newline>''] =
     Some (Inr [''0 18.5 V 1.5 1.2 10.0 2023 1 1\<newline>'']) \<and>
   pipeline decimal_float (Datetime 738521) (Float 365.25)
     [''2023 1 1 1.5 1.2 10.0\<newline>''] [''2023 1 1 18.5 V\<newline>''] =
   Some (Inr ([''2023 1 1 18.5 V 1.5 1.2 10.0\<newline>''],
     Some ([([''2023'', ''1'', ''1'', ''0'', ''1.5'', ''1.2'', ''10.0'', ''18.5''], 17.22)], 0, 1))) \<and>
   py_round2 (18.5 - 5 * log 10 (1.5 * 1.2) + 0) = 17.22"
proof -
  have "strptime ''2023-01-01'' = Inr 738521" by code_simp
  moreover have "py_round2 (18.5 - 5 * log 10 (1.5 * 1.2) + 0) = 17.22"
    using scenario_m_abs by simp
  ultimately show ?thesis
    using scenario_combine scenario_correct_dates scenario_run_value by simp
qed

section \<open>Properties of the chunked download\<close>

text \<open>A date that \<open>strptime\<close> returns is at most 9999-12-31.\<close>

lemma isdigit_value: "isdigit c \<Longrightarrow> 0 \<le> digit_value c \<and> digit_value c \<le> 9"
  by (auto simp: isdigit_def digit_value_def)

lemma nonzero_digit: "a \<noteq> CHR ''0'' \<Longrightarrow> (of_char a :: nat) \<noteq> 48"
proof
  assume "a \<noteq> CHR ''0''" and "(of_char a :: nat) = 48"
  then have "(of_char a :: nat) = of_char CHR ''0''" by simp
  then have "a = CHR ''0''" by (simp only: of_char_eq_iff)
  with \<open>a \<noteq> CHR ''0''\<close> show False by simp
qed

lemma parse_Y_range:
  assumes "parse_Y s = Some y"
  shows "0 \<le> y \<and> y \<le> 9999"
proof -
  from assms have l: "length s = 4" and d: "list_all isdigit s"
    and y: "y = foldl (\<lambda>n c. 10 * n + digit_value c) 0 s"
    by (auto simp: parse_Y_def split: if_splits)
  from l obtain a b c d' where s: "s = [a, b, c, d']"
    by (auto simp: length_Suc_conv numeral_eq_Suc)
  from d s isdigit_value [of a] isdigit_value [of b] isdigit_value [of c] isdigit_value [of d']
  show ?thesis unfolding y s by simp
qed

lemma parse_m_range:
  assumes "parse_m s = Some m"
  shows "1 \<le> m \<and> m \<le> 12"
  using assms
proof (induction s rule: parse_m.induct)
  case (1 a)
  then show ?case
    using isdigit_value [of a] nonzero_digit [of a]
    by (auto simp: isdigit_def digit_value_def split: if_splits)
next
  case (2 a b)
  then show ?case
    using isdigit_value [of b] nonzero_digit [of b]
    by (auto simp: isdigit_def digit_value_def split: if_splits)
qed simp_all

lemma parse_d_range:
  assumes "parse_d s = Some d"
  shows "1 \<le> d \<and> d \<le> 31"
  using assms
proof (induction s rule: parse_d.induct)
  case (1 a)
  then show ?case
    using isdigit_value [of a] nonzero_digit [of a]
    by (auto simp: isdigit_def digit_value_def split: if_splits)
next
  case (2 a b)
  then show ?case
    using isdigit_value [of b] nonzero_digit [of b]
    by (auto simp: isdigit_def digit_value_def split: if_splits)
qed simp_all

lemma days_in_year_bound:
  assumes "1 \<le> month" and "month \<le> 12" and "day \<le> days_in_month year month"
  shows "days_before_month year month + day \<le> (if is_leap year then 366 else 365)"
proof -
  from assms(1,2) consider "month = 1" | "month = 2" | "month = 3" | "month = 4" | "month = 5"
    | "month = 6" | "month = 7" | "month = 8" | "month = 9" | "month = 10" | "month = 11"
    | "month = 12"
    by atomize_elim presburger
  then show ?thesis
    using assms(3)
    by cases (auto simp add: days_before_month_def days_in_month_def DAYS_IN_MONTH_def
                split: if_splits)
qed

lemma days_before_year_bound:
  assumes "1 \<le> year" and "year \<le> 9999"
  shows "days_before_year year + (if is_leap year then 366 else 365) \<le> MAXORDINAL"
proof (cases "year = 9999")
  case True
  then show ?thesis
    by (simp add: days_before_year_def is_leap_def MAXORDINAL_def)
next
  case False
  with assms have "year - 1 \<le> 9997" "0 \<le> year - 1" by simp_all
  then have "(year - 1) div 4 \<le> 2499" "0 \<le> (year - 1) div 100" "(year - 1) div 400 \<le> 24"
    by linarith+
  with \<open>year - 1 \<le> 9997\<close> show ?thesis
    by (simp add: days_before_year_def MAXORDINAL_def Let_def)
qed

lemma strptime_range:
  assumes "strptime date_str = Inr e"
  shows "e \<le> MAXORDINAL"
proof -
  from assms obtain Y m d year month day where
    p: "parse_Y Y = Some year" "parse_m m = Some month" "parse_d d = Some day"
    and mk: "make_datetime year month day = Inr e"
    by (auto simp: strptime_def split: list.splits option.splits)
  from mk have y1: "1 \<le> year" and dm: "day \<le> days_in_month year month"
    and e: "e = ymd2ord year month day"
    by (auto simp: make_datetime_def split: if_splits)
  from days_in_year_bound [OF _ _ dm] parse_m_range [OF p(2)]
  have "days_before_month year month + day \<le> (if is_leap year then 366 else 365)" by simp
  moreover from days_before_year_bound [OF y1] parse_Y_range [OF p(1)]
  have "days_before_year year + (if is_leap year then 366 else 365) \<le> MAXORDINAL" by simp
  ultimately show ?thesis unfolding e ymd2ord_def by (simp split: if_splits)
qed

lemma download_loop_requests:
  assumes "\<forall>a n m. download_ephemeris a n m \<noteq> 0"
    and "start_date + difference - 1 \<le> MAXORDINAL"
    and "0 \<le> n_iterations"
    and "append_mode = (2 \<le> n_iterations)"
  shows "fst (download_loop download_ephemeris start_date difference n_iterations append_mode
                success_down_ephem requests) =
         requests @ map (chunk start_date difference n_iterations)
                      [0 ..< nat ((difference + 4000) div 4001)]"
  using assms
proof (induction download_ephemeris start_date difference n_iterations append_mode
         success_down_ephem requests rule: download_loop.induct)
  case (1 dl s d n a su reqs)
  show ?case
  proof (cases "0 < d")
    case False
    then have "nat ((d + 4000) div 4001) = 0" by simp
    with False show ?thesis
      by (subst download_loop.simps) simp
  next
    case True
    define a' where "a' = (if n = 1 then True else a)"
    define days where "days = min d 4001"
    define su' where "su' = dl s days a'"
    define reqs' where "reqs' = reqs @ [(s, days, a')]"
    have su: "su' \<noteq> 0" using "1.prems"(1) by (simp add: su'_def)
    have a': "a' = (1 \<le> n)" using "1.prems"(3,4) by (auto simp: a'_def)
    have first: "(s, days, a') = chunk s d n 0"
      by (simp add: chunk_def days_def a')
    have unfold: "download_loop dl s d n a su reqs =
        (if s + days > MAXORDINAL then (reqs', Inl OverflowError)
         else download_loop dl (s + days) (d - days) (n + 1) a' su' reqs')"
      using True su
      by (subst download_loop.simps) (simp add: Let_def a'_def days_def su'_def reqs'_def)
    show ?thesis
    proof (cases "d \<le> 4001")
      case True
      then have days: "days = d" by (simp add: days_def)
      have k: "nat ((d + 4000) div 4001) = 1"
        using True \<open>0 < d\<close> by simp
      have last: "download_loop dl (s + d) 0 (n + 1) a' su' reqs' = (reqs', Inr su')"
        by (subst download_loop.simps) simp
      have "fst (download_loop dl s d n a su reqs) = reqs'"
        unfolding unfold days using last by simp
      then show ?thesis
        using first k by (simp add: reqs'_def)
    next
      case False
      then have days: "days = 4001" by (simp add: days_def)
      have no: "\<not> s + days > MAXORDINAL"
        using "1.prems"(2) False days by simp
      have k: "nat ((d + 4000) div 4001) = Suc (nat ((d - 4001 + 4000) div 4001))"
        using False by simp
      have ih: "fst (download_loop dl (s + days) (d - days) (n + 1) a' su' reqs') =
          reqs' @ map (chunk (s + days) (d - days) (n + 1)) [0 ..< nat ((d - days + 4000) div 4001)]"
      proof (rule "1.IH" [OF True a'_def days_def su'_def reqs'_def])
        show "su' \<noteq> 0" by (rule su)
        show "\<not> MAXORDINAL < s + days" using no by simp
        show "\<forall>a n m. dl a n m \<noteq> 0" by (rule "1.prems"(1))
        show "s + days + (d - days) - 1 \<le> MAXORDINAL" using "1.prems"(2) by simp
        show "0 \<le> n + 1" using "1.prems"(3) by simp
        show "a' = (2 \<le> n + 1)" using a' by auto
      qed
      have shift: "map (chunk (s + 4001) (d - 4001) (n + 1)) [0 ..< m] =
          map (chunk s d n) (map Suc [0 ..< m])" for m
        by (simp add: chunk_def algebra_simps)
      have "fst (download_loop dl s d n a su reqs) =
          reqs @ chunk s d n 0 # map (chunk s d n) (map Suc [0 ..< nat ((d - 4001 + 4000) div 4001)])"
        unfolding unfold using no ih first by (simp add: days reqs'_def shift)
      also have "chunk s d n 0 # map (chunk s d n) (map Suc [0 ..< nat ((d - 4001 + 4000) div 4001)]) =
          map (chunk s d n) [0 ..< nat ((d + 4000) div 4001)]"
        unfolding k by (simp only: map_Suc_upt upt_conv_Cons [of 0 "Suc _"] list.map)
      finally show ?thesis .
    qed
  qed
qed

lemma chunks_cover:
  assumes "0 \<le> difference"
  shows "concat (map (\<lambda>(a, n, m). [a .. a + n - 1])
           (map (chunk s difference k) [0 ..< nat ((difference + 4000) div 4001)])) =
         [s .. s + difference - 1]"
  using assms
proof (induction "nat difference" arbitrary: s difference k rule: less_induct)
  case less
  show ?case
  proof (cases "difference \<le> 4001")
    case True
    show ?thesis
    proof (cases "difference = 0")
      case True
      then show ?thesis by simp
    next
      case False
      with True less.prems have "nat ((difference + 4000) div 4001) = 1" by simp
      with True show ?thesis by (simp add: chunk_def)
    qed
  next
    case False
    then have k: "nat ((difference + 4000) div 4001) = Suc (nat ((difference - 4001 + 4000) div 4001))"
      by simp
    have shift: "map (chunk s difference k) (map Suc [0 ..< m]) =
        map (chunk (s + 4001) (difference - 4001) (k + 1)) [0 ..< m]" for m
      by (simp add: chunk_def algebra_simps)
    have ih: "concat (map (\<lambda>(a, n, m). [a .. a + n - 1])
           (map (chunk (s + 4001) (difference - 4001) (k + 1))
              [0 ..< nat ((difference - 4001 + 4000) div 4001)])) =
         [s + 4001 .. s + 4001 + (difference - 4001) - 1]"
      using False by (intro less.hyps) simp_all
    have "map (chunk s difference k) [0 ..< nat ((difference + 4000) div 4001)] =
        chunk s difference k 0 #
        map (chunk (s + 4001) (difference - 4001) (k + 1))
          [0 ..< nat ((difference - 4001 + 4000) div 4001)]"
      unfolding k shift [symmetric]
      by (simp only: map_Suc_upt upt_conv_Cons [of 0 "Suc _"] list.map)
    then have "concat (map (\<lambda>(a, n, m). [a .. a + n - 1])
           (map (chunk s difference k) [0 ..< nat ((difference + 4000) div 4001)])) =
        [s .. s + 4001 - 1] @ [s + 4001 .. s + difference - 1]"
      using ih False by (simp add: chunk_def)
    also have "\<dots> = [s .. s + difference - 1]"
      using False upto_split2 [of s "s + 4000" "s + difference - 1"] by (simp add: add.commute)
    finally show ?thesis .
  qed
qed

lemma ceiling_chunks:
  assumes "0 \<le> n_days"
  shows "int (nat ((n_days + 4000) div 4001)) = \<lceil>real_of_int n_days / 4001\<rceil>"
proof -
  define q r where "q = n_days div 4001" and "r = n_days mod 4001"
  have n: "n_days = 4001 * q + r" and r: "0 \<le> r" "r < 4001"
    by (simp_all add: q_def r_def)
  have up: "(n_days + 4000) div 4001 = (if r = 0 then q else q + 1)"
  proof (cases "r = 0")
    case True
    have "(n_days + 4000) div 4001 = q"
      by (rule int_div_pos_eq [where r = 4000]) (simp_all add: n True)
    with True show ?thesis by simp
  next
    case False
    have "(n_days + 4000) div 4001 = q + 1"
      using r False by (intro int_div_pos_eq [where r = "r - 1"]) (simp_all add: n)
    with False show ?thesis by simp
  qed
  have "\<lceil>real_of_int n_days / real_of_int 4001\<rceil> = - ((- n_days) div 4001)"
    by (rule ceiling_divide_eq_div)
  also have "\<dots> = (if r = 0 then q else q + 1)"
    by (simp add: zdiv_zminus1_eq_if q_def r_def)
  finally have "\<lceil>real_of_int n_days / 4001\<rceil> = (n_days + 4000) div 4001"
    using up by simp
  moreover have "0 \<le> (n_days + 4000) div 4001"
    using assms by simp
  ultimately show ?thesis by simp
qed

text \<open>
  C3. Let the start and end date parse to the days \<open>s \<le> e\<close> and let every request
  succeed. Then the requests issued for the \<open>e - s + 1\<close> days number
  \<open>\<lceil>(e - s + 1) / 4001\<rceil>\<close>; the \<open>i\<close>-th starts at day \<open>s + 4001 * i\<close>, right after the one
  before it, asks for the smaller of 4001 and the days still remaining, and appends to the
  file unless it is the first; and the days requested, in the order of the requests, are
  exactly the days from \<open>s\<close> to \<open>e\<close>, each once.
\<close>

theorem chunked_requests_cover_period:
  assumes "strptime start_date = Inr s"
    and "strptime end_date = Inr e"
    and "s \<le> e"
    and "\<forall>a n m. download_ephemeris a n m \<noteq> 0"
    and "requests = fst (download_ephem_for_period download_ephemeris start_date end_date)"
  shows "int (length requests) = \<lceil>real_of_int (e - s + 1) / 4001\<rceil> \<and>
         (\<forall>i < length requests.
            requests ! i = (s + 4001 * int i, min (e - s + 1 - 4001 * int i) 4001, 1 \<le> i)) \<and>
         concat (map (\<lambda>(a, n, m). [a .. a + n - 1]) requests) = [s .. e]"
proof -
  have r: "requests = map (chunk s (e - s + 1) 0) [0 ..< nat ((e - s + 1 + 4000) div 4001)]"
    using download_loop_requests [OF assms(4), of s "e - s + 1" 0 False 0 "[]"]
      strptime_range [OF assms(2)] assms(1,2,5)
    by (simp add: download_ephem_for_period_def)
  have "int (length requests) = \<lceil>real_of_int (e - s + 1) / 4001\<rceil>"
    unfolding r using ceiling_chunks [of "e - s + 1"] assms(3) by simp
  moreover have "\<forall>i < length requests.
      requests ! i = (s + 4001 * int i, min (e - s + 1 - 4001 * int i) 4001, 1 \<le> i)"
    unfolding r by (simp add: chunk_def)
  moreover have "concat (map (\<lambda>(a, n, m). [a .. a + n - 1]) requests) = [s .. e]"
    unfolding r using chunks_cover [of "e - s + 1" s 0] assms(3) by simp
  ultimately show ?thesis by blast
qed

theorem chunked_requests_cover_period_witness:
  "strptime ''2000-01-01'' = Inr 730120 \<and> strptime ''2025-12-31'' = Inr 739616 \<and>
   (730120 :: int) \<le> 739616 \<and>
   fst (download_ephem_for_period (\<lambda>a n m. 1) ''2000-01-01'' ''2025-12-31'') =
     [(730120, 4001, False), (734121, 4001, True), (738122, 1495, True)] \<and>
   int (length (fst (download_ephem_for_period (\<lambda>a n m. 1) ''2000-01-01'' ''2025-12-31''))) =
     \<lceil>real_of_int (739616 - 730120 + 1) / 4001\<rceil> \<and>
   concat (map (\<lambda>(a, n, m). [a .. a + n - 1])
     (fst (download_ephem_for_period (\<lambda>a n m. 1) ''2000-01-01'' ''2025-12-31''))) = [730120 .. 739616]"
proof -
  have s: "strptime ''2000-01-01'' = Inr 730120" by code_simp
  have e: "strptime ''2025-12-31'' = Inr 739616" by code_simp
  have le: "(730120 :: int) \<le> 739616" by simp
  have ok: "\<forall>a n m. (\<lambda>a n m. 1 :: int) a n m \<noteq> 0" by simp
  have v: "fst (download_ephem_for_period (\<lambda>a n m. 1) ''2000-01-01'' ''2025-12-31'') =
     [(730120, 4001, False), (734121, 4001, True), (738122, 1495, True)]"
    by (simp add: download_ephem_for_period_def s e download_loop.simps MAXORDINAL_def)
  from chunked_requests_cover_period [OF s e le ok refl]
  have "int (length (fst (download_ephem_for_period (\<lambda>a n m. 1) ''2000-01-01'' ''2025-12-31''))) =
     \<lceil>real_of_int (739616 - 730120 + 1) / 4001\<rceil> \<and>
     concat (map (\<lambda>(a, n, m). [a .. a + n - 1])
       (fst (download_ephem_for_period (\<lambda>a n m. 1) ''2000-01-01'' ''2025-12-31''))) = [730120 .. 739616]"
    by blast
  with s e le v show ?thesis by blast
qed

section \<open>A malformed answer for a missing epoch parameter\<close>

lemma malformed_date_answer: "strptime ''2023/01/01'' = Inl ValueError"
  by code_simp

lemma found_period: "decimal_float ''3.30'' = Some (33 / 10)"
  by (simp add: decimal_float_def unsigned_decimal_def py_strip_def isspace_def isdigit_def
        digits_value_def digit_value_def)

lemma agreed: "lower ''yes'' = ''yes''"
  by (simp add: lower_def)

lemma fallback_returns_None:
  "new_perihelion_or_period decimal_float False True [''2023/01/01'', ''yes''] = Inr (PyNone, [''yes''])"
  by (simp add: new_perihelion_or_period_def input_def bind_err_def malformed_date_answer)

lemma epoch_parameters_failing:
  "epoch_parameters decimal_float '''' ''3.30'' [''2023/01/01'', ''yes''] =
     Inr (PyNone, Float (3.30 * 365.25))"
  using fallback_returns_None found_period agreed
  by (simp add: epoch_parameters_def py_strip_def isspace_def bind_err_def py_float_def input_def)

lemma correct_dates_None:
  "correct_dates PyNone (Float (3.30 * 365.25)) [''2023 1 1 18.5 V 1.5 1.2 10.0\<newline>''] =
     Some (Inl TypeError)"
  using scenario_length scenario_date
  by (simp add: correct_dates_def correct_line_def wrapped_delta_days_def Let_def)

text \<open>
  C6. The code does not do what the claim asks. The perihelion cell of the page is empty,
  the period cell reads \<open>3.30\<close>, the user answers the request for a date with
  \<open>2023/01/01\<close> and then agrees. \<open>new_perihelion_or_period\<close> catches the
  \<open>ValueError\<close> and returns \<open>None\<close>; \<open>download_observations\<close> returns it as the
  perihelion date; the main program calls \<open>correct_dates\<close> with it, where the
  subtraction of \<open>None\<close> from the date of the first line raises \<open>TypeError\<close>.
\<close>

theorem malformed_fallback_reaches_normalization:
  "strptime ''2023/01/01'' = Inl ValueError \<and>
   epoch_parameters decimal_float '''' ''3.30'' [''2023/01/01'', ''yes''] =
     Inr (PyNone, Float (3.30 * 365.25)) \<and>
   pipeline decimal_float PyNone (Float (3.30 * 365.25))
     [''2023 1 1 1.5 1.2 10.0\<newline>''] [''2023 1 1 18.5 V\<newline>''] = Some (Inl TypeError)"
proof -
  have "pipeline decimal_float PyNone (Float (3.30 * 365.25))
     [''2023 1 1 1.5 1.2 10.0\<newline>''] [''2023 1 1 18.5 V\<newline>''] = Some (Inl TypeError)"
    using scenario_combine correct_dates_None by (simp add: pipeline_def)
  with malformed_date_answer epoch_parameters_failing show ?thesis by blast
qed

end
